theory Spec2Isabelle
  imports Main
begin

section \<open>Data model\<close>

text \<open>
  A row fetched through a \<open>DictCursor\<close> is a Python dict from column names to values;
  the catalog fields read by the code are all names, modelled as strings.
  A row of the plain (tuple) cursor of the column query has exactly the four selected
  fields \<open>(TABLE_SCHEMA, TABLE_NAME, COLUMN_NAME, DATA_TYPE)\<close>.
\<close>

type_synonym row = "string \<rightharpoonup> string"

type_synonym column_row = "string \<times> string \<times> string \<times> string"

text \<open>
  \<open>schema_row\<close> is the five-element list built by \<open>_query_schema_data\<close>:
  \<open>[table_schema, table_name, column_name, is_pk, data_type]\<close>.
\<close>

type_synonym schema_row = "string \<times> string \<times> string \<times> bool \<times> string"

text \<open>
  Exceptions are values. \<open>ClientError\<close> is whatever the database connector or the HTTP
  client raises (a connectivity or authentication failure, or a catalog view that cannot
  be read); \<open>KeyError\<close> is a subscript with a key the dict does not have;
  \<open>TypeError\<close> is a subscript on \<open>None\<close>.
\<close>

datatype failure = Connectivity | Auth | CatalogAccess

datatype error = ClientError failure | KeyError string | TypeError

text \<open>
  The SQL texts of \<open>snowflake.py\<close>, one constructor per statement, with the schema name
  (and, for the table listing, the \<open>include_views\<close> flag that picks the type filter)
  that the f-string splices in.
\<close>

datatype query =
    TablesQuery string bool
  | ShowTables string
  | FkMethod1 string
  | FkMethod2 string
  | ShowImportedKeys string
  | KeyColumnUsage string
  | ShowPrimaryKeys string
  | ColumnsQuery string

text \<open>
  The global \<open>snowflake_connection\<close>: \<open>cursor\<close> is \<open>Some e\<close> when opening a
  cursor raises \<open>e\<close>; \<open>execute\<close> is \<open>cur.execute(q)\<close> followed by
  \<open>cur.fetchall()\<close> on a \<open>DictCursor\<close>, \<open>execute_tuples\<close> the same on a plain
  cursor (used for the column query only).
\<close>

record db =
  cursor :: "error option"
  execute :: "query \<Rightarrow> error + row list"
  execute_tuples :: "query \<Rightarrow> error + column_row list"

record attribute =
  attr_name :: string
  attr_PK :: bool
  attr_FK :: bool
  attr_DATA_TYPE :: string

record entity =
  ent_id :: string
  ent_name :: string
  ent_attributes :: "attribute list"

record source_end =
  src_id :: string
  src_name :: string
  startType :: string
  src_attributeNames :: "string list"

record target_end =
  tgt_id :: string
  tgt_name :: string
  endType :: string
  tgt_attributeNames :: "string list"

record relationship =
  sourceEntity :: source_end
  targetEntity :: target_end
  description :: "string list"

text \<open>
  The dict under the key \<open>'model'\<close>. \<open>snowflake_export\<close> creates it with the keys
  \<open>level\<close>, \<open>entities\<close> and \<open>relationships\<close> only; \<open>name\<close> and \<open>folderId\<close>
  are added by the callers, so they are optional here. Any further key lives in the
  record's extension.
\<close>

record model =
  model_name :: "string option"
  level :: string
  folderId :: "int option"
  entities :: "entity list"
  relationships :: "relationship list"

section \<open>ellie.py\<close>

text \<open>
  The f-string of the request URL. \<open>ellie_settings\<close> is the module global: \<open>None\<close>
  until \<open>ellie_connect\<close> has run, then the settings dict.
\<close>

definition ellie_url :: "(string \<rightharpoonup> string) option \<Rightarrow> error + string" where
  "ellie_url ellie_settings =
     (case ellie_settings of
        None \<Rightarrow> Inl TypeError
      | Some s \<Rightarrow>
         (case s ''organization'' of
            None \<Rightarrow> Inl (KeyError ''organization'')
          | Some org \<Rightarrow>
             (case s ''api_version'' of
                None \<Rightarrow> Inl (KeyError ''api_version'')
              | Some ver \<Rightarrow>
                 (case s ''token'' of
                    None \<Rightarrow> Inl (KeyError ''token'')
                  | Some tok \<Rightarrow> Inr (org @ ''/api/'' @ ver @ ''/models?token='' @ tok)))))"

text \<open>
  \<open>ellie_model_import\<close> writes two keys of the dict it was given and then posts that
  dict. The caller keeps a reference to the same dict, so the first component of the
  result is the document as the caller sees it afterwards (also when building the URL or
  the request raises: both come after the two assignments). \<open>post\<close> is
  \<open>requests.post(url=..., json=...)\<close>.
\<close>

definition ellie_model_import ::
  "(string \<rightharpoonup> string) option \<Rightarrow> (string \<Rightarrow> 'a model_scheme \<Rightarrow> error + 'r) \<Rightarrow>
   string \<Rightarrow> 'a model_scheme \<Rightarrow> string \<Rightarrow> 'a model_scheme \<times> (error + 'r)" where
  "ellie_model_import ellie_settings post name m lvl =
     (let m1 = m\<lparr>model_name := Some name\<rparr>;
          m2 = m1\<lparr>level := lvl\<rparr>
      in (m2, case ellie_url ellie_settings of
                Inl e \<Rightarrow> Inl e
              | Inr url \<Rightarrow> post url m2))"

section \<open>snowflake.py: fetching the catalog\<close>

text \<open>\<open>d.get(k, default)\<close> on a dict.\<close>

definition dict_get :: "row \<Rightarrow> string \<Rightarrow> string \<Rightarrow> string" where
  "dict_get r k dflt = (case r k of None \<Rightarrow> dflt | Some v \<Rightarrow> v)"

text \<open>\<open>str.upper()\<close>, on the ASCII letters (a \<open>char\<close> is a byte).\<close>

definition upper_char :: "char \<Rightarrow> char" where
  "upper_char c =
     (case map_of (zip ''abcdefghijklmnopqrstuvwxyz'' ''ABCDEFGHIJKLMNOPQRSTUVWXYZ'') c of
        None \<Rightarrow> c
      | Some u \<Rightarrow> u)"

definition upper :: "string \<Rightarrow> string" where
  "upper s = map upper_char s"

text \<open>
  \<open>_get_tables_and_views\<close>. The cursor is opened outside the \<open>try\<close>, so a failure
  there propagates; everything raised inside is caught: the outer handler returns
  \<open>[]\<close>, the inner one (around \<open>SHOW TABLES\<close>) keeps the empty first result.
\<close>

definition get_tables_and_views :: "db \<Rightarrow> string \<Rightarrow> bool \<Rightarrow> error + row list" where
  "get_tables_and_views d schema_name include_views =
     (case cursor d of
        Some e \<Rightarrow> Inl e
      | None \<Rightarrow>
         (case execute d (TablesQuery schema_name include_views) of
            Inl e \<Rightarrow> Inr []
          | Inr tables \<Rightarrow>
             (case tables of
                [] \<Rightarrow>
                  (case execute d (ShowTables schema_name) of
                     Inl e \<Rightarrow> Inr tables
                   | Inr all_tables \<Rightarrow>
                       Inr (if include_views then all_tables
                            else filter (\<lambda>t. upper (dict_get t ''kind'' []) = ''TABLE'')
                                   all_tables))
              | _ \<Rightarrow> Inr tables)))"

text \<open>
  The dict built for each row of \<open>SHOW IMPORTED KEYS\<close> (method 3): the canonical
  lower-case keys, each read from the upper-case name, else from the lower-case one,
  else the empty string.
\<close>

definition remap_imported_key :: "row \<Rightarrow> row" where
  "remap_imported_key r =
     [''fk_schema_name'' \<mapsto> dict_get r ''FK_DATABASE_NAME'' (dict_get r ''fk_schema_name'' []),
      ''fk_table_name'' \<mapsto> dict_get r ''FK_TABLE_NAME'' (dict_get r ''fk_table_name'' []),
      ''fk_column_name'' \<mapsto> dict_get r ''FK_COLUMN_NAME'' (dict_get r ''fk_column_name'' []),
      ''pk_schema_name'' \<mapsto> dict_get r ''PK_DATABASE_NAME'' (dict_get r ''pk_schema_name'' []),
      ''pk_table_name'' \<mapsto> dict_get r ''PK_TABLE_NAME'' (dict_get r ''pk_table_name'' []),
      ''pk_column_name'' \<mapsto> dict_get r ''PK_COLUMN_NAME'' (dict_get r ''pk_column_name'' [])]"

text \<open>
  The body of the \<open>try\<close> in the loop of \<open>_get_foreign_keys\<close>: \<open>Some results\<close> when
  the query ran and returned at least one row (the loop then breaks), \<open>None\<close> when it
  returned no row or anything raised (the loop goes on).
\<close>

definition fk_attempt :: "db \<Rightarrow> query \<Rightarrow> row list option" where
  "fk_attempt d q =
     (case cursor d of
        Some e \<Rightarrow> None
      | None \<Rightarrow>
         (case execute d q of
            Inl e \<Rightarrow> None
          | Inr results \<Rightarrow> (case results of [] \<Rightarrow> None | _ \<Rightarrow> Some results)))"

text \<open>
  The loop \<open>for i, query in enumerate(methods)\<close>. The first component is what the
  loop prints: the number \<open>i + 1\<close> of every method it tries
  (\<open>Trying foreign key query method ...\<close>), in order.
\<close>

fun try_methods :: "db \<Rightarrow> (nat \<times> query) list \<Rightarrow> nat list \<times> row list" where
  "try_methods d [] = ([], [])"
| "try_methods d ((i, q) # rest) =
     (case fk_attempt d q of
        None \<Rightarrow> (Suc i # fst (try_methods d rest), snd (try_methods d rest))
      | Some results \<Rightarrow>
          ([Suc i], if i = 2 then map remap_imported_key results else results))"

definition methods :: "string \<Rightarrow> (nat \<times> query) list" where
  "methods schema_name =
     [(0, FkMethod1 schema_name), (1, FkMethod2 schema_name), (2, ShowImportedKeys schema_name)]"

definition get_foreign_keys_log :: "db \<Rightarrow> string \<Rightarrow> nat list" where
  "get_foreign_keys_log d schema_name = fst (try_methods d (methods schema_name))"

definition get_foreign_keys :: "db \<Rightarrow> string \<Rightarrow> row list" where
  "get_foreign_keys d schema_name = snd (try_methods d (methods schema_name))"

text \<open>
  \<open>_query_schema_data\<close>, first half: the primary-key lookup. The dict
  \<open>primary_keys\<close> maps every key to \<open>True\<close>, so it is the list of its keys. The
  first loop subscripts the row: a missing key raises inside the inner \<open>try\<close>, which
  ends the loop and keeps the keys added before.
\<close>

type_synonym pk_key = "string \<times> string \<times> string"

fun add_keys1 :: "row list \<Rightarrow> pk_key list \<Rightarrow> pk_key list" where
  "add_keys1 [] primary_keys = primary_keys"
| "add_keys1 (r # rs) primary_keys =
     (case (r ''TABLE_SCHEMA'', r ''TABLE_NAME'', r ''COLUMN_NAME'') of
        (Some s, Some t, Some c) \<Rightarrow> add_keys1 rs (primary_keys @ [(s, t, c)])
      | _ \<Rightarrow> primary_keys)"

definition key2 :: "row \<Rightarrow> pk_key" where
  "key2 r = (dict_get r ''schema_name'' [], dict_get r ''table_name'' [],
             dict_get r ''column_name'' [])"

definition primary_keys_of :: "db \<Rightarrow> string \<Rightarrow> pk_key list" where
  "primary_keys_of d schema_name =
     (case cursor d of
        Some e \<Rightarrow> []
      | None \<Rightarrow>
         (let pk1 = (case execute d (KeyColumnUsage schema_name) of
                       Inl e \<Rightarrow> []
                     | Inr rows \<Rightarrow> add_keys1 rows [])
          in (case pk1 of
                [] \<Rightarrow> (case execute d (ShowPrimaryKeys schema_name) of
                         Inl e \<Rightarrow> pk1
                       | Inr rows \<Rightarrow> pk1 @ map key2 rows)
              | _ \<Rightarrow> pk1)))"

text \<open>
  Second half: the column listing, outside any \<open>try\<close>, so a failure of the cursor
  or of the query propagates.
\<close>

definition result_row :: "pk_key list \<Rightarrow> column_row \<Rightarrow> schema_row" where
  "result_row primary_keys r =
     (case r of (table_schema, table_name, column_name, data_type) \<Rightarrow>
        (table_schema, table_name, column_name,
         (table_schema, table_name, column_name) \<in> set primary_keys, data_type))"

definition query_schema_data :: "db \<Rightarrow> string \<Rightarrow> error + schema_row list" where
  "query_schema_data d schema_name =
     (let primary_keys = primary_keys_of d schema_name
      in (case cursor d of
            Some e \<Rightarrow> Inl e
          | None \<Rightarrow>
             (case execute_tuples d (ColumnsQuery schema_name) of
                Inl e \<Rightarrow> Inl e
              | Inr rows \<Rightarrow> Inr (map (result_row primary_keys) rows))))"

section \<open>snowflake.py: building the document\<close>

text \<open>
  The three accumulators of \<open>snowflake_export\<close>. \<open>grouped_rows\<close> is a dict, which
  Python keeps in insertion order: an association list with its keys in that order.
  \<open>uuid_count\<close> counts the calls of \<open>uuid.uuid4()\<close> so far; the function
  \<open>uuid4\<close> passed around below gives the string the n-th call returns.
\<close>

record export_state =
  grouped_rows :: "(string \<times> attribute list) list"
  entity_ids :: "string \<rightharpoonup> string"
  st_relationships :: "relationship list"
  uuid_count :: nat

definition init_state :: export_state where
  "init_state = \<lparr>grouped_rows = [], entity_ids = Map.empty, st_relationships = [], uuid_count = 0\<rparr>"

definition keys :: "(string \<times> attribute list) list \<Rightarrow> string list" where
  "keys g = map fst g"

text \<open>In-place change of the attribute list stored under one key.\<close>

definition update_attrs ::
  "string \<Rightarrow> (attribute list \<Rightarrow> attribute list) \<Rightarrow> (string \<times> attribute list) list \<Rightarrow>
   (string \<times> attribute list) list" where
  "update_attrs t f g = map (\<lambda>(k, as). (k, if k = t then f as else as)) g"

text \<open>\<open>[row['TABLE_NAME'] for row in table_types]\<close>\<close>

fun table_names :: "row list \<Rightarrow> error + string list" where
  "table_names [] = Inr []"
| "table_names (r # rs) =
     (case r ''TABLE_NAME'' of
        None \<Rightarrow> Inl (KeyError ''TABLE_NAME'')
      | Some n \<Rightarrow> (case table_names rs of Inl e \<Rightarrow> Inl e | Inr ns \<Rightarrow> Inr (n # ns)))"

text \<open>The body of \<open>for row in schema_data\<close>.\<close>

definition new_attribute :: "schema_row \<Rightarrow> attribute" where
  "new_attribute r =
     (case r of (table_schema, table_name, column_name, is_pk, data_type) \<Rightarrow>
        \<lparr>attr_name = column_name, attr_PK = is_pk, attr_FK = False, attr_DATA_TYPE = data_type\<rparr>)"

definition row_table :: "schema_row \<Rightarrow> string" where
  "row_table r = fst (snd r)"

definition column_step ::
  "(nat \<Rightarrow> string) \<Rightarrow> string list \<Rightarrow> export_state \<Rightarrow> schema_row \<Rightarrow> export_state" where
  "column_step uuid4 tables st r =
     (let table_name = row_table r in
      if table_name \<notin> set tables then st
      else
        (let attribute = new_attribute r;
             st1 = (if table_name \<notin> set (keys (grouped_rows st))
                    then st\<lparr>grouped_rows := grouped_rows st @ [(table_name, [])],
                            entity_ids := (entity_ids st)(table_name \<mapsto> uuid4 (uuid_count st)),
                            uuid_count := Suc (uuid_count st)\<rparr>
                    else st)
         in st1\<lparr>grouped_rows :=
                  update_attrs table_name (\<lambda>as. as @ [attribute]) (grouped_rows st1)\<rparr>))"

text \<open>The body of \<open>for fk in foreign_keys\<close>.\<close>

definition mark_fk :: "string \<Rightarrow> attribute list \<Rightarrow> attribute list" where
  "mark_fk fk_column as =
     map (\<lambda>a. if attr_name a = fk_column then a\<lparr>attr_FK := True\<rparr> else a) as"

definition new_relationship ::
  "string \<Rightarrow> string \<Rightarrow> string \<Rightarrow> string \<Rightarrow> string \<Rightarrow> string \<Rightarrow> relationship" where
  "new_relationship pk_id pk_table pk_column fk_id fk_table fk_column =
     \<lparr>sourceEntity = \<lparr>src_id = pk_id, src_name = pk_table, startType = ''one'',
                       src_attributeNames = [pk_column]\<rparr>,
      targetEntity = \<lparr>tgt_id = fk_id, tgt_name = fk_table, endType = ''many'',
                       tgt_attributeNames = [fk_column]\<rparr>,
      description = []\<rparr>"

text \<open>
  The six subscripts at the head of the \<open>try\<close>: a missing key raises \<open>KeyError\<close>,
  which the handler of the loop body catches before anything was changed.
\<close>

definition fk_fields ::
  "row \<Rightarrow> (string \<times> string \<times> string \<times> string \<times> string \<times> string) option" where
  "fk_fields fk =
     (case fk ''fk_schema_name'' of None \<Rightarrow> None | Some fk_schema \<Rightarrow>
     (case fk ''fk_table_name'' of None \<Rightarrow> None | Some fk_table \<Rightarrow>
     (case fk ''fk_column_name'' of None \<Rightarrow> None | Some fk_column \<Rightarrow>
     (case fk ''pk_schema_name'' of None \<Rightarrow> None | Some pk_schema \<Rightarrow>
     (case fk ''pk_table_name'' of None \<Rightarrow> None | Some pk_table \<Rightarrow>
     (case fk ''pk_column_name'' of None \<Rightarrow> None | Some pk_column \<Rightarrow>
        Some (fk_schema, fk_table, fk_column, pk_schema, pk_table, pk_column)))))))"

definition fk_step :: "string list \<Rightarrow> export_state \<Rightarrow> row \<Rightarrow> export_state" where
  "fk_step tables st fk =
     (case fk_fields fk of
        None \<Rightarrow> st
      | Some (fk_schema, fk_table, fk_column, pk_schema, pk_table, pk_column) \<Rightarrow>
          if fk_table \<notin> set tables \<or> pk_table \<notin> set tables then st
          else
            (let st1 = (if fk_table \<in> set (keys (grouped_rows st))
                        then st\<lparr>grouped_rows :=
                                  update_attrs fk_table (mark_fk fk_column) (grouped_rows st)\<rparr>
                        else st)
             in (case entity_ids st1 pk_table of
                   None \<Rightarrow> st1
                 | Some pk_id \<Rightarrow>
                    (case entity_ids st1 fk_table of
                       None \<Rightarrow> st1
                     | Some fk_id \<Rightarrow>
                        if pk_table \<in> set (keys (grouped_rows st1))
                           \<and> fk_table \<in> set (keys (grouped_rows st1))
                        then st1\<lparr>st_relationships := st_relationships st1 @
                                   [new_relationship pk_id pk_table pk_column
                                      fk_id fk_table fk_column]\<rparr>
                        else st1))))"

text \<open>The body of \<open>for schema in schemas\<close>.\<close>

definition process_schema ::
  "db \<Rightarrow> (nat \<Rightarrow> string) \<Rightarrow> bool \<Rightarrow> export_state \<Rightarrow> string \<Rightarrow> error + export_state" where
  "process_schema d uuid4 include_views st schema =
     (case get_tables_and_views d schema include_views of
        Inl e \<Rightarrow> Inl e
      | Inr table_types \<Rightarrow>
         (case table_types of
            [] \<Rightarrow> Inr st
          | _ \<Rightarrow>
             (case table_names table_types of
                Inl e \<Rightarrow> Inl e
              | Inr tables \<Rightarrow>
                 (let foreign_keys = get_foreign_keys d schema
                  in (case query_schema_data d schema of
                        Inl e \<Rightarrow> Inl e
                      | Inr schema_data \<Rightarrow>
                          Inr (foldl (fk_step tables)
                                 (foldl (column_step uuid4 tables) st schema_data)
                                 foreign_keys))))))"

fun export_loop ::
  "db \<Rightarrow> (nat \<Rightarrow> string) \<Rightarrow> bool \<Rightarrow> export_state \<Rightarrow> string list \<Rightarrow> error + export_state" where
  "export_loop d uuid4 include_views st [] = Inr st"
| "export_loop d uuid4 include_views st (schema # schemas) =
     (case process_schema d uuid4 include_views st schema of
        Inl e \<Rightarrow> Inl e
      | Inr st' \<Rightarrow> export_loop d uuid4 include_views st' schemas)"

text \<open>
  The list comprehension that builds the entities: \<open>entity_ids[name]\<close> is a
  subscript, which raises on a name without an identifier.
\<close>

fun build_entities ::
  "(string \<rightharpoonup> string) \<Rightarrow> (string \<times> attribute list) list \<Rightarrow> error + entity list" where
  "build_entities ids [] = Inr []"
| "build_entities ids ((name, as) # g) =
     (case ids name of
        None \<Rightarrow> Inl (KeyError name)
      | Some i \<Rightarrow>
         (case build_entities ids g of
            Inl e \<Rightarrow> Inl e
          | Inr es \<Rightarrow> Inr (\<lparr>ent_id = i, ent_name = name, ent_attributes = as\<rparr> # es)))"

definition snowflake_export ::
  "db \<Rightarrow> (nat \<Rightarrow> string) \<Rightarrow> string list \<Rightarrow> bool \<Rightarrow> error + model" where
  "snowflake_export d uuid4 schemas include_views =
     (case export_loop d uuid4 include_views init_state schemas of
        Inl e \<Rightarrow> Inl e
      | Inr st \<Rightarrow>
         (case build_entities (entity_ids st) (grouped_rows st) of
            Inl e \<Rightarrow> Inl e
          | Inr ents \<Rightarrow>
              Inr \<lparr>model_name = None, level = ''conceptual'', folderId = None,
                   entities = ents, relationships = st_relationships st\<rparr>))"

section \<open>What one pass over a schema reads\<close>

text \<open>
  The list \<open>tables\<close> and the list \<open>schema_data\<close> that the pass over one schema
  works with. Both are empty when the pass does not get as far as computing them (for a
  pass that raises, the export returns no document at all).
\<close>

definition in_scope :: "db \<Rightarrow> bool \<Rightarrow> string \<Rightarrow> string list" where
  "in_scope d include_views schema =
     (case get_tables_and_views d schema include_views of
        Inl e \<Rightarrow> []
      | Inr table_types \<Rightarrow> (case table_names table_types of Inl e \<Rightarrow> [] | Inr tables \<Rightarrow> tables))"

definition column_rows :: "db \<Rightarrow> string \<Rightarrow> schema_row list" where
  "column_rows d schema = (case query_schema_data d schema of Inl e \<Rightarrow> [] | Inr rows \<Rightarrow> rows)"

text \<open>The attribute list stored under a table name; empty for a name that is not a key.\<close>

definition lookup :: "(string \<times> attribute list) list \<Rightarrow> string \<Rightarrow> attribute list" where
  "lookup g t = (case map_of g t of None \<Rightarrow> [] | Some as \<Rightarrow> as)"

text \<open>
  The attributes that the pass over \<open>schema\<close> appends under the table name \<open>t\<close>: one
  per column row of that table, in catalog order, when the name is in the schema's
  table listing.
\<close>

definition schema_columns :: "db \<Rightarrow> bool \<Rightarrow> string \<Rightarrow> string \<Rightarrow> attribute list" where
  "schema_columns d include_views schema t =
     (if t \<in> set (in_scope d include_views schema)
      then map new_attribute (filter (\<lambda>r. row_table r = t) (column_rows d schema))
      else [])"

definition unflag :: "attribute \<Rightarrow> attribute" where
  "unflag a = a\<lparr>attr_FK := False\<rparr>"

text \<open>The pass over a schema raises nothing.\<close>

definition fetch_ok :: "db \<Rightarrow> bool \<Rightarrow> string \<Rightarrow> bool" where
  "fetch_ok d include_views schema =
     (case get_tables_and_views d schema include_views of
        Inl e \<Rightarrow> False
      | Inr table_types \<Rightarrow>
         (case table_types of
            [] \<Rightarrow> True
          | _ \<Rightarrow>
             (case table_names table_types of
                Inl e \<Rightarrow> False
              | Inr tables \<Rightarrow>
                 (case query_schema_data d schema of Inl e \<Rightarrow> False | Inr rows \<Rightarrow> True))))"

section \<open>Notions used in the statements\<close>

text \<open>
  What the pass over one foreign-key row appends to the relationship list, as a function
  of the scope \<open>tables\<close>, of the keys of \<open>grouped_rows\<close> and of \<open>entity_ids\<close>.
\<close>

definition emitted :: "string list \<Rightarrow> string list \<Rightarrow> (string \<rightharpoonup> string) \<Rightarrow> row \<Rightarrow> relationship list" where
  "emitted tables ks ids fk =
     (case fk_fields fk of
        None \<Rightarrow> []
      | Some (fk_schema, fk_table, fk_column, pk_schema, pk_table, pk_column) \<Rightarrow>
          if fk_table \<in> set tables \<and> pk_table \<in> set tables
             \<and> fk_table \<in> set ks \<and> pk_table \<in> set ks
          then (case ids pk_table of
                  None \<Rightarrow> []
                | Some pk_id \<Rightarrow>
                   (case ids fk_table of
                      None \<Rightarrow> []
                    | Some fk_id \<Rightarrow>
                       [new_relationship pk_id pk_table pk_column fk_id fk_table fk_column]))
          else [])"

text \<open>
  The state invariant of the loops: the keys of \<open>grouped_rows\<close> are distinct (it is a
  dict), they are the keys of \<open>entity_ids\<close>, and no key holds an empty attribute list.
\<close>

definition state_inv :: "export_state \<Rightarrow> bool" where
  "state_inv st \<longleftrightarrow>
     distinct (keys (grouped_rows st))
     \<and> dom (entity_ids st) = set (keys (grouped_rows st))
     \<and> list_all (\<lambda>k. lookup (grouped_rows st) k \<noteq> []) (keys (grouped_rows st))"

text \<open>
  The table names that have an entry in \<open>grouped_rows\<close> once the schemas \<open>ss\<close> have
  been processed: those with a column row in a schema whose table listing has the name.
\<close>

definition grouped_names :: "db \<Rightarrow> bool \<Rightarrow> string list \<Rightarrow> string list" where
  "grouped_names d include_views ss =
     concat (map (\<lambda>s. filter (\<lambda>t. t \<in> set (in_scope d include_views s))
                          (map row_table (column_rows d s))) ss)"

text \<open>
  The relationship list of an export, read off the catalog: for each schema in turn
  (\<open>pre\<close> are the schemas before it), what each of its foreign-key rows emits, in row
  order.
\<close>

fun expected_relationships ::
  "db \<Rightarrow> bool \<Rightarrow> (string \<rightharpoonup> string) \<Rightarrow> string list \<Rightarrow> string list \<Rightarrow> relationship list" where
  "expected_relationships d include_views ids pre [] = []"
| "expected_relationships d include_views ids pre (s # ss) =
     concat (map (emitted (in_scope d include_views s)
                    (grouped_names d include_views (pre @ [s])) ids)
               (get_foreign_keys d s))
     @ expected_relationships d include_views ids (pre @ [s]) ss"

text \<open>The identifier a document gives to an entity name.\<close>

definition ids_of :: "entity list \<Rightarrow> string \<rightharpoonup> string" where
  "ids_of ents = map_of (map (\<lambda>e. (ent_name e, ent_id e)) ents)"

definition row_column :: "schema_row \<Rightarrow> string" where
  "row_column r = fst (snd (snd r))"

text \<open>
  The columns of the schema's column result, as (table, column) pairs, and the check that
  the foreign-key rows of a schema whose two tables are in the schema's table listing
  name only such columns.
\<close>

definition listed_columns :: "db \<Rightarrow> string \<Rightarrow> (string \<times> string) list" where
  "listed_columns d s = map (\<lambda>r. (row_table r, row_column r)) (column_rows d s)"

definition columns_listed :: "db \<Rightarrow> bool \<Rightarrow> string \<Rightarrow> bool" where
  "columns_listed d include_views s =
     list_all
       (\<lambda>fk. case fk_fields fk of
                None \<Rightarrow> True
              | Some (fk_schema, fk_table, fk_column, pk_schema, pk_table, pk_column) \<Rightarrow>
                  fk_table \<in> set (in_scope d include_views s)
                  \<and> pk_table \<in> set (in_scope d include_views s)
                  \<longrightarrow> (fk_table, fk_column) \<in> set (listed_columns d s)
                      \<and> (pk_table, pk_column) \<in> set (listed_columns d s))
       (get_foreign_keys d s)"

text \<open>
  Some foreign-key row of some schema in \<open>ss\<close> has \<open>t.c\<close> as its referencing column,
  with both of its tables in that schema's table listing.
\<close>

definition flag_source :: "db \<Rightarrow> bool \<Rightarrow> string list \<Rightarrow> string \<Rightarrow> string \<Rightarrow> bool" where
  "flag_source d include_views ss t c =
     list_ex
       (\<lambda>s. list_ex
               (\<lambda>fk. case fk_fields fk of
                        None \<Rightarrow> False
                      | Some (fk_schema, fk_table, fk_column, pk_schema, pk_table, pk_column) \<Rightarrow>
                          fk_table = t \<and> fk_column = c
                          \<and> fk_table \<in> set (in_scope d include_views s)
                          \<and> pk_table \<in> set (in_scope d include_views s))
               (get_foreign_keys d s))
       ss"

text \<open>
  The attribute list the export gives the table name \<open>t\<close>, read off the catalog: the
  column records of each schema in turn, each with its flag set when a foreign-key row
  of that schema or of a later one, between two tables of that schema's listing, names
  the column as its referencing side. (A row of an earlier schema was processed before
  the record existed.)
\<close>

fun expected_attributes :: "db \<Rightarrow> bool \<Rightarrow> string \<Rightarrow> string list \<Rightarrow> attribute list" where
  "expected_attributes d include_views t [] = []"
| "expected_attributes d include_views t (s # ss) =
     map (\<lambda>a. a\<lparr>attr_FK := flag_source d include_views (s # ss) t (attr_name a)\<rparr>)
       (schema_columns d include_views s t)
     @ expected_attributes d include_views t ss"

text \<open>
  For the proofs: setting the flag of the attributes whose name satisfies \<open>P\<close>, and the
  names that the foreign-key rows \<open>fks\<close> of one pass flag under the table name \<open>t\<close>.
\<close>

definition mark_by :: "(string \<Rightarrow> bool) \<Rightarrow> attribute \<Rightarrow> attribute" where
  "mark_by P a = (if P (attr_name a) then a\<lparr>attr_FK := True\<rparr> else a)"

definition row_flags :: "string list \<Rightarrow> row list \<Rightarrow> string \<Rightarrow> string \<Rightarrow> bool" where
  "row_flags tables fks t c =
     list_ex
       (\<lambda>fk. case fk_fields fk of
                None \<Rightarrow> False
              | Some (fk_schema, fk_table, fk_column, pk_schema, pk_table, pk_column) \<Rightarrow>
                  fk_table = t \<and> fk_column = c
                  \<and> fk_table \<in> set tables \<and> pk_table \<in> set tables)
       fks"

text \<open>
  A document and a relationship without their generated identifiers, and the relation
  between the states of two runs that differ in their identifiers only.
\<close>

definition erase_rel_ids :: "relationship \<Rightarrow> relationship" where
  "erase_rel_ids r = r\<lparr>sourceEntity := (sourceEntity r)\<lparr>src_id := []\<rparr>,
                        targetEntity := (targetEntity r)\<lparr>tgt_id := []\<rparr>\<rparr>"

definition erase_ids :: "model \<Rightarrow> model" where
  "erase_ids doc = doc\<lparr>entities := map (\<lambda>e. e\<lparr>ent_id := []\<rparr>) (entities doc),
                        relationships := map erase_rel_ids (relationships doc)\<rparr>"

definition same_shape :: "export_state \<Rightarrow> export_state \<Rightarrow> bool" where
  "same_shape st1 st2 \<longleftrightarrow>
     grouped_rows st1 = grouped_rows st2
     \<and> dom (entity_ids st1) = dom (entity_ids st2)
     \<and> map erase_rel_ids (st_relationships st1) = map erase_rel_ids (st_relationships st2)"

section \<open>Sample catalogs\<close>

text \<open>A sample sequence of identifiers, standing for the values of \<open>uuid.uuid4()\<close>.\<close>

definition sample_uuid4 :: "nat \<Rightarrow> string" where
  "sample_uuid4 n = ''uuid-'' @ replicate n (CHR ''i'')"

text \<open>
  The scenario of the spec: \<open>ORDERS(id, customer_id)\<close> and \<open>CUSTOMERS(id)\<close>, one
  constraint \<open>ORDERS.customer_id \<rightarrow> CUSTOMERS.id\<close>. The first two foreign-key queries
  return no row; \<open>SHOW IMPORTED KEYS\<close> returns one row with upper-case names.
\<close>

definition shop_tables :: "row list" where
  "shop_tables =
     [[''TABLE_NAME'' \<mapsto> ''ORDERS'', ''TABLE_TYPE'' \<mapsto> ''BASE TABLE''],
      [''TABLE_NAME'' \<mapsto> ''CUSTOMERS'', ''TABLE_TYPE'' \<mapsto> ''BASE TABLE'']]"

definition shop_key :: row where
  "shop_key =
     [''FK_TABLE_NAME'' \<mapsto> ''ORDERS'', ''FK_COLUMN_NAME'' \<mapsto> ''customer_id'',
      ''PK_TABLE_NAME'' \<mapsto> ''CUSTOMERS'', ''PK_COLUMN_NAME'' \<mapsto> ''id'']"

definition shop_columns :: "column_row list" where
  "shop_columns =
     [(''PUBLIC'', ''CUSTOMERS'', ''id'', ''NUMBER''),
      (''PUBLIC'', ''ORDERS'', ''id'', ''NUMBER''),
      (''PUBLIC'', ''ORDERS'', ''customer_id'', ''NUMBER'')]"

definition shop_db :: db where
  "shop_db =
     \<lparr>cursor = None,
      execute = (\<lambda>q. case q of
                   TablesQuery s v \<Rightarrow> Inr shop_tables
                 | ShowImportedKeys s \<Rightarrow> Inr [shop_key]
                 | KeyColumnUsage s \<Rightarrow>
                     Inr [[''TABLE_SCHEMA'' \<mapsto> ''PUBLIC'', ''TABLE_NAME'' \<mapsto> ''ORDERS'',
                           ''COLUMN_NAME'' \<mapsto> ''id''],
                          [''TABLE_SCHEMA'' \<mapsto> ''PUBLIC'', ''TABLE_NAME'' \<mapsto> ''CUSTOMERS'',
                           ''COLUMN_NAME'' \<mapsto> ''id'']]
                 | _ \<Rightarrow> Inr []),
      execute_tuples = (\<lambda>q. Inr shop_columns)\<rparr>"

definition shop_doc :: model where
  "shop_doc =
     \<lparr>model_name = None, level = ''conceptual'', folderId = None,
      entities =
        [\<lparr>ent_id = ''uuid-'', ent_name = ''CUSTOMERS'',
          ent_attributes =
            [\<lparr>attr_name = ''id'', attr_PK = True, attr_FK = False, attr_DATA_TYPE = ''NUMBER''\<rparr>]\<rparr>,
         \<lparr>ent_id = ''uuid-i'', ent_name = ''ORDERS'',
          ent_attributes =
            [\<lparr>attr_name = ''id'', attr_PK = True, attr_FK = False, attr_DATA_TYPE = ''NUMBER''\<rparr>,
             \<lparr>attr_name = ''customer_id'', attr_PK = False, attr_FK = True,
              attr_DATA_TYPE = ''NUMBER''\<rparr>]\<rparr>],
      relationships =
        [new_relationship ''uuid-'' ''CUSTOMERS'' ''id'' ''uuid-i'' ''ORDERS'' ''customer_id'']\<rparr>"

text \<open>
  The same catalog with a listed table \<open>ORPHAN\<close> for which the column query returns
  nothing, referenced by \<open>ORDERS.customer_id\<close>.
\<close>

definition orphan_db :: db where
  "orphan_db =
     \<lparr>cursor = None,
      execute = (\<lambda>q. case q of
                   TablesQuery s v \<Rightarrow>
                     Inr [[''TABLE_NAME'' \<mapsto> ''ORDERS''], [''TABLE_NAME'' \<mapsto> ''ORPHAN'']]
                 | ShowImportedKeys s \<Rightarrow>
                     Inr [[''FK_TABLE_NAME'' \<mapsto> ''ORDERS'', ''FK_COLUMN_NAME'' \<mapsto> ''customer_id'',
                           ''PK_TABLE_NAME'' \<mapsto> ''ORPHAN'', ''PK_COLUMN_NAME'' \<mapsto> ''id'']]
                 | _ \<Rightarrow> Inr []),
      execute_tuples = (\<lambda>q. Inr [(''PUBLIC'', ''ORDERS'', ''id'', ''NUMBER''),
                                 (''PUBLIC'', ''ORDERS'', ''customer_id'', ''NUMBER'')])\<rparr>"

definition orphan_doc :: model where
  "orphan_doc =
     \<lparr>model_name = None, level = ''conceptual'', folderId = None,
      entities =
        [\<lparr>ent_id = ''uuid-'', ent_name = ''ORDERS'',
          ent_attributes =
            [\<lparr>attr_name = ''id'', attr_PK = False, attr_FK = False, attr_DATA_TYPE = ''NUMBER''\<rparr>,
             \<lparr>attr_name = ''customer_id'', attr_PK = False, attr_FK = True,
              attr_DATA_TYPE = ''NUMBER''\<rparr>]\<rparr>],
      relationships = []\<rparr>"

text \<open>Two schemas \<open>A\<close> and \<open>B\<close>, each with a table named \<open>T\<close>.\<close>

definition twin_db :: db where
  "twin_db =
     \<lparr>cursor = None,
      execute = (\<lambda>q. case q of
                   TablesQuery s v \<Rightarrow> Inr [[''TABLE_NAME'' \<mapsto> ''T'']]
                 | _ \<Rightarrow> Inr []),
      execute_tuples = (\<lambda>q. case q of
                   ColumnsQuery s \<Rightarrow>
                     (if s = ''A'' then Inr [(''A'', ''T'', ''a'', ''NUMBER'')]
                      else Inr [(''B'', ''T'', ''b'', ''TEXT'')])
                 | _ \<Rightarrow> Inr [])\<rparr>"

definition twin_doc :: model where
  "twin_doc =
     \<lparr>model_name = None, level = ''conceptual'', folderId = None,
      entities =
        [\<lparr>ent_id = ''uuid-'', ent_name = ''T'',
          ent_attributes =
            [\<lparr>attr_name = ''a'', attr_PK = False, attr_FK = False, attr_DATA_TYPE = ''NUMBER''\<rparr>,
             \<lparr>attr_name = ''b'', attr_PK = False, attr_FK = False, attr_DATA_TYPE = ''TEXT''\<rparr>]\<rparr>],
      relationships = []\<rparr>"

text \<open>
  The shop catalog when \<open>SHOW IMPORTED KEYS\<close> reports the one constraint three times.
\<close>

definition dup_db :: db where
  "dup_db = shop_db\<lparr>execute := (\<lambda>q. case q of
                        ShowImportedKeys s \<Rightarrow> Inr [shop_key, shop_key, shop_key]
                      | _ \<Rightarrow> execute shop_db q)\<rparr>"

definition shop_relationship :: relationship where
  "shop_relationship =
     new_relationship ''uuid-'' ''CUSTOMERS'' ''id'' ''uuid-i'' ''ORDERS'' ''customer_id''"

text \<open>
  A catalog whose one constraint references \<open>CUSTOMERS.id\<close> of another schema, while the
  exported schema has a table \<open>CUSTOMERS\<close> of its own, without a column \<open>id\<close>.
\<close>

definition dangling_db :: db where
  "dangling_db =
     \<lparr>cursor = None,
      execute = (\<lambda>q. case q of
                   TablesQuery s v \<Rightarrow> Inr shop_tables
                 | ShowImportedKeys s \<Rightarrow>
                     Inr [[''FK_SCHEMA_NAME'' \<mapsto> ''SALES'', ''FK_TABLE_NAME'' \<mapsto> ''ORDERS'',
                           ''FK_COLUMN_NAME'' \<mapsto> ''customer_id'',
                           ''PK_SCHEMA_NAME'' \<mapsto> ''CRM'', ''PK_TABLE_NAME'' \<mapsto> ''CUSTOMERS'',
                           ''PK_COLUMN_NAME'' \<mapsto> ''id'']]
                 | _ \<Rightarrow> Inr []),
      execute_tuples = (\<lambda>q. Inr [(''SALES'', ''CUSTOMERS'', ''email'', ''TEXT''),
                                 (''SALES'', ''ORDERS'', ''customer_id'', ''NUMBER'')])\<rparr>"

definition dangling_doc :: model where
  "dangling_doc =
     \<lparr>model_name = None, level = ''conceptual'', folderId = None,
      entities =
        [\<lparr>ent_id = ''uuid-'', ent_name = ''CUSTOMERS'',
          ent_attributes =
            [\<lparr>attr_name = ''email'', attr_PK = False, attr_FK = False, attr_DATA_TYPE = ''TEXT''\<rparr>]\<rparr>,
         \<lparr>ent_id = ''uuid-i'', ent_name = ''ORDERS'',
          ent_attributes =
            [\<lparr>attr_name = ''customer_id'', attr_PK = False, attr_FK = True,
              attr_DATA_TYPE = ''NUMBER''\<rparr>]\<rparr>],
      relationships =
        [new_relationship ''uuid-'' ''CUSTOMERS'' ''id'' ''uuid-i'' ''ORDERS'' ''customer_id'']\<rparr>"

text \<open>The cursor opens, and every query raises a connectivity failure.\<close>

definition down_db :: db where
  "down_db = \<lparr>cursor = None,
              execute = (\<lambda>q. Inl (ClientError Connectivity)),
              execute_tuples = (\<lambda>q. Inl (ClientError Connectivity))\<rparr>"

text \<open>
  Two schemas that both list \<open>T\<close> and \<open>U\<close>. Schema \<open>A\<close> has column rows for \<open>U\<close>
  only and reports the constraint \<open>T.c \<rightarrow> U.id\<close>; schema \<open>B\<close> has the column rows of
  \<open>T\<close>. The two documents are the exports in the orders \<open>A, B\<close> and \<open>B, A\<close>.
\<close>

definition late_db :: db where
  "late_db =
     \<lparr>cursor = None,
      execute = (\<lambda>q. case q of
                   TablesQuery s v \<Rightarrow> Inr [[''TABLE_NAME'' \<mapsto> ''T''], [''TABLE_NAME'' \<mapsto> ''U'']]
                 | ShowImportedKeys s \<Rightarrow>
                     (if s = ''A''
                      then Inr [[''FK_TABLE_NAME'' \<mapsto> ''T'', ''FK_COLUMN_NAME'' \<mapsto> ''c'',
                                 ''PK_TABLE_NAME'' \<mapsto> ''U'', ''PK_COLUMN_NAME'' \<mapsto> ''id'']]
                      else Inr [])
                 | _ \<Rightarrow> Inr []),
      execute_tuples = (\<lambda>q. case q of
                   ColumnsQuery s \<Rightarrow>
                     (if s = ''A'' then Inr [(''A'', ''U'', ''id'', ''NUMBER'')]
                      else Inr [(''B'', ''T'', ''c'', ''NUMBER'')])
                 | _ \<Rightarrow> Inr [])\<rparr>"

definition late_doc :: model where
  "late_doc =
     \<lparr>model_name = None, level = ''conceptual'', folderId = None,
      entities =
        [\<lparr>ent_id = ''uuid-'', ent_name = ''U'',
          ent_attributes =
            [\<lparr>attr_name = ''id'', attr_PK = False, attr_FK = False, attr_DATA_TYPE = ''NUMBER''\<rparr>]\<rparr>,
         \<lparr>ent_id = ''uuid-i'', ent_name = ''T'',
          ent_attributes =
            [\<lparr>attr_name = ''c'', attr_PK = False, attr_FK = False, attr_DATA_TYPE = ''NUMBER''\<rparr>]\<rparr>],
      relationships = []\<rparr>"

definition early_doc :: model where
  "early_doc =
     \<lparr>model_name = None, level = ''conceptual'', folderId = None,
      entities =
        [\<lparr>ent_id = ''uuid-'', ent_name = ''T'',
          ent_attributes =
            [\<lparr>attr_name = ''c'', attr_PK = False, attr_FK = True, attr_DATA_TYPE = ''NUMBER''\<rparr>]\<rparr>,
         \<lparr>ent_id = ''uuid-i'', ent_name = ''U'',
          ent_attributes =
            [\<lparr>attr_name = ''id'', attr_PK = False, attr_FK = False, attr_DATA_TYPE = ''NUMBER''\<rparr>]\<rparr>],
      relationships = [new_relationship ''uuid-i'' ''U'' ''id'' ''uuid-'' ''T'' ''c'']\<rparr>"

text \<open>
  The catalog view \<open>INFORMATION_SCHEMA.TABLES\<close> returns no row, so the listing comes
  from \<open>SHOW TABLES\<close>, whose rows carry the table name under the key \<open>name\<close> and the
  kind under the key \<open>kind\<close> (the key that \<open>_get_tables_and_views\<close> itself reads).
  The column query returns a row for the one table.
\<close>

definition fallback_row :: row where
  "fallback_row = [''name'' \<mapsto> ''ORDERS'', ''kind'' \<mapsto> ''TABLE'', ''schema_name'' \<mapsto> ''PUBLIC'']"

definition fallback_db :: db where
  "fallback_db =
     \<lparr>cursor = None,
      execute = (\<lambda>q. case q of ShowTables s \<Rightarrow> Inr [fallback_row] | _ \<Rightarrow> Inr []),
      execute_tuples = (\<lambda>q. Inr [(''PUBLIC'', ''ORDERS'', ''id'', ''NUMBER'')])\<rparr>"

section \<open>Basic facts about the loops\<close>

lemma keys_update_attrs [simp]: "keys (update_attrs t f g) = keys g"
  by (induction g) (auto simp: keys_def update_attrs_def)

lemma keys_append [simp]: "keys (g @ h) = keys g @ keys h"
  by (simp add: keys_def)

lemma keys_Cons [simp]: "keys ((k, v) # g) = k # keys g"
  by (simp add: keys_def)

lemma keys_Nil [simp]: "keys [] = []"
  by (simp add: keys_def)

lemma map_of_keys: "map_of g k = None \<longleftrightarrow> k \<notin> set (keys g)"
  by (simp add: keys_def map_of_eq_None_iff)

lemma lookup_absent: "k \<notin> set (keys g) \<Longrightarrow> lookup g k = []"
  by (simp add: lookup_def map_of_keys [symmetric])

lemma map_of_update_attrs:
  "map_of (update_attrs t f g) k = (if k = t then map_option f (map_of g k) else map_of g k)"
  by (induction g) (auto simp: update_attrs_def)

lemma lookup_update_attrs:
  "lookup (update_attrs t f g) k = (if k = t \<and> k \<in> set (keys g) then f (lookup g k) else lookup g k)"
proof (cases "map_of g k")
  case None
  then have "k \<notin> set (keys g)"
    using map_of_keys [of g k] by simp
  with None show ?thesis
    by (auto simp: lookup_def map_of_update_attrs)
next
  case (Some v)
  then have "k \<in> set (keys g)"
    using map_of_keys [of g k] by simp
  with Some show ?thesis
    by (auto simp: lookup_def map_of_update_attrs)
qed

lemma lookup_snoc:
  "lookup (g @ [(t, as)]) k = (if k \<in> set (keys g) then lookup g k else if k = t then as else [])"
proof (cases "map_of g k")
  case None
  then have "k \<notin> set (keys g)"
    using map_of_keys [of g k] by simp
  with None show ?thesis
    by (auto simp: lookup_def map_add_def)
next
  case (Some v)
  then have "k \<in> set (keys g)"
    using map_of_keys [of g k] by simp
  with Some show ?thesis
    by (simp add: lookup_def map_add_def)
qed

lemma column_step_keys:
  "keys (grouped_rows (column_step u T st r)) =
     (if row_table r \<in> set T \<and> row_table r \<notin> set (keys (grouped_rows st))
      then keys (grouped_rows st) @ [row_table r] else keys (grouped_rows st))"
  by (simp add: column_step_def Let_def)

lemma column_step_lookup:
  "lookup (grouped_rows (column_step u T st r)) k =
     lookup (grouped_rows st) k @ (if row_table r \<in> set T \<and> k = row_table r then [new_attribute r] else [])"
  by (auto simp: column_step_def Let_def lookup_update_attrs lookup_snoc lookup_absent)

lemma column_step_rels [simp]:
  "st_relationships (column_step u T st r) = st_relationships st"
  by (simp add: column_step_def Let_def)

lemma column_step_ids:
  "entity_ids (column_step u T st r) =
     (if row_table r \<in> set T \<and> row_table r \<notin> set (keys (grouped_rows st))
      then (entity_ids st)(row_table r \<mapsto> u (uuid_count st)) else entity_ids st)"
  by (simp add: column_step_def Let_def)

lemma column_step_count:
  "uuid_count (column_step u T st r) =
     (if row_table r \<in> set T \<and> row_table r \<notin> set (keys (grouped_rows st))
      then Suc (uuid_count st) else uuid_count st)"
  by (simp add: column_step_def Let_def)

lemma fk_step_keys [simp]: "keys (grouped_rows (fk_step T st fk)) = keys (grouped_rows st)"
  by (auto simp: fk_step_def Let_def split: option.splits)

lemma fk_step_ids [simp]: "entity_ids (fk_step T st fk) = entity_ids st"
  by (auto simp: fk_step_def Let_def split: option.splits)

lemma fk_step_count [simp]: "uuid_count (fk_step T st fk) = uuid_count st"
  by (auto simp: fk_step_def Let_def split: option.splits)

lemma mark_fk_Nil [simp]: "mark_fk c [] = []"
  by (simp add: mark_fk_def)

lemma fk_step_lookup:
  "lookup (grouped_rows (fk_step T st fk)) k =
     (case fk_fields fk of
        None \<Rightarrow> lookup (grouped_rows st) k
      | Some (fs, ft, fc, ps, pt, pc) \<Rightarrow>
          if ft \<in> set T \<and> pt \<in> set T \<and> k = ft
          then mark_fk fc (lookup (grouped_rows st) k)
          else lookup (grouped_rows st) k)"
  by (auto simp: fk_step_def Let_def lookup_update_attrs lookup_absent split: option.splits)

lemma fk_step_rels:
  "st_relationships (fk_step T st fk) =
     st_relationships st @ emitted T (keys (grouped_rows st)) (entity_ids st) fk"
  by (auto simp: fk_step_def emitted_def Let_def split: option.splits)

lemma foldl_fk_keys [simp]:
  "keys (grouped_rows (foldl (fk_step T) st fks)) = keys (grouped_rows st)"
  by (induction fks arbitrary: st) simp_all

lemma foldl_fk_ids [simp]:
  "entity_ids (foldl (fk_step T) st fks) = entity_ids st"
  by (induction fks arbitrary: st) simp_all

lemma foldl_fk_count [simp]:
  "uuid_count (foldl (fk_step T) st fks) = uuid_count st"
  by (induction fks arbitrary: st) simp_all

lemma foldl_fk_rels:
  "st_relationships (foldl (fk_step T) st fks) =
     st_relationships st @ concat (map (emitted T (keys (grouped_rows st)) (entity_ids st)) fks)"
  by (induction fks arbitrary: st) (simp_all add: fk_step_rels)

lemma unflag_mark_fk [simp]: "map unflag (mark_fk c as) = map unflag as"
  by (simp add: mark_fk_def unflag_def)

lemma length_mark_fk [simp]: "length (mark_fk c as) = length as"
  by (simp add: mark_fk_def)

lemma names_mark_fk [simp]: "map attr_name (mark_fk c as) = map attr_name as"
  by (simp add: mark_fk_def)

lemma fk_step_unflag:
  "map unflag (lookup (grouped_rows (fk_step T st fk)) k) = map unflag (lookup (grouped_rows st) k)"
  by (simp add: fk_step_lookup split: option.splits)

lemma foldl_fk_unflag:
  "map unflag (lookup (grouped_rows (foldl (fk_step T) st fks)) k)
     = map unflag (lookup (grouped_rows st) k)"
  by (induction fks arbitrary: st) (simp_all add: fk_step_unflag)

lemma foldl_column_rels [simp]:
  "st_relationships (foldl (column_step u T) st rows) = st_relationships st"
  by (induction rows arbitrary: st) simp_all

lemma foldl_column_lookup:
  "lookup (grouped_rows (foldl (column_step u T) st rows)) k =
     lookup (grouped_rows st) k @
       (if k \<in> set T then map new_attribute (filter (\<lambda>r. row_table r = k) rows) else [])"
  by (induction rows arbitrary: st) (auto simp: column_step_lookup)

lemma foldl_column_keys_set:
  "set (keys (grouped_rows (foldl (column_step u T) st rows))) =
     set (keys (grouped_rows st)) \<union> {t \<in> set T. t \<in> row_table ` set rows}"
  by (induction rows arbitrary: st) (auto simp: column_step_keys)

lemma column_step_inv: "state_inv st \<Longrightarrow> state_inv (column_step u T st r)"
  by (auto simp: state_inv_def column_step_keys column_step_ids column_step_lookup list_all_iff)

lemma fk_step_inv: "state_inv st \<Longrightarrow> state_inv (fk_step T st fk)"
  by (auto simp: state_inv_def fk_step_lookup list_all_iff mark_fk_def split: option.splits)

lemma foldl_column_inv: "state_inv st \<Longrightarrow> state_inv (foldl (column_step u T) st rows)"
  by (induction rows arbitrary: st) (simp_all add: column_step_inv)

lemma foldl_fk_inv: "state_inv st \<Longrightarrow> state_inv (foldl (fk_step T) st fks)"
  by (induction fks arbitrary: st) (simp_all add: fk_step_inv)

lemma init_inv: "state_inv init_state"
  by (simp add: state_inv_def init_state_def)

lemma column_step_out [simp]: "column_step u [] st r = st"
  by (simp add: column_step_def)

lemma fk_step_out [simp]: "fk_step [] st fk = st"
  by (simp add: fk_step_def split: option.splits)

lemma foldl_column_out [simp]: "foldl (column_step u []) st rows = st"
  by (induction rows) simp_all

lemma foldl_fk_out [simp]: "foldl (fk_step []) st fks = st"
  by (induction fks) simp_all

lemma process_schema_Inr:
  assumes "process_schema d u iv st s = Inr st'"
  shows "st' = foldl (fk_step (in_scope d iv s))
                 (foldl (column_step u (in_scope d iv s)) st (column_rows d s))
                 (get_foreign_keys d s)"
  using assms
  by (auto simp: process_schema_def in_scope_def column_rows_def Let_def
           split: sum.splits list.splits)

lemma process_schema_ok:
  "(\<exists>st'. process_schema d u iv st s = Inr st') \<longleftrightarrow> fetch_ok d iv s"
  by (auto simp: process_schema_def fetch_ok_def Let_def split: sum.splits list.splits)

lemma export_loop_ok:
  "(\<exists>st'. export_loop d u iv st ss = Inr st') \<longleftrightarrow> list_all (fetch_ok d iv) ss"
proof (induction ss arbitrary: st)
  case Nil
  show ?case by simp
next
  case (Cons s ss)
  show ?case
  proof (cases "process_schema d u iv st s")
    case (Inl e)
    then have "\<not> fetch_ok d iv s"
      using process_schema_ok [of d u iv st s] by simp
    with Inl show ?thesis by simp
  next
    case (Inr st1)
    then have "fetch_ok d iv s"
      using process_schema_ok [of d u iv st s] by auto
    with Inr Cons.IH [of st1] show ?thesis by simp
  qed
qed

lemma process_schema_inv:
  "state_inv st \<Longrightarrow> process_schema d u iv st s = Inr st' \<Longrightarrow> state_inv st'"
  by (auto dest!: process_schema_Inr intro!: foldl_fk_inv foldl_column_inv)

lemma export_loop_inv:
  "state_inv st \<Longrightarrow> export_loop d u iv st ss = Inr st' \<Longrightarrow> state_inv st'"
  by (induction ss arbitrary: st) (auto split: sum.splits dest: process_schema_inv)

lemma unflag_new_attribute [simp]: "unflag (new_attribute r) = new_attribute r"
  by (cases r) (simp add: unflag_def new_attribute_def)

lemma process_schema_cols:
  assumes "process_schema d u iv st s = Inr st'"
  shows "map unflag (lookup (grouped_rows st') k)
           = map unflag (lookup (grouped_rows st) k) @ schema_columns d iv s k"
  by (simp add: process_schema_Inr [OF assms] foldl_fk_unflag foldl_column_lookup
        schema_columns_def)

lemma export_loop_cols:
  "export_loop d u iv st ss = Inr st' \<Longrightarrow>
     map unflag (lookup (grouped_rows st') k)
       = map unflag (lookup (grouped_rows st) k) @ concat (map (\<lambda>s. schema_columns d iv s k) ss)"
proof (induction ss arbitrary: st)
  case Nil
  then show ?case by simp
next
  case (Cons s ss)
  then obtain st1 where 1: "process_schema d u iv st s = Inr st1"
    and 2: "export_loop d u iv st1 ss = Inr st'"
    by (auto split: sum.splits)
  show ?case
    by (simp add: Cons.IH [OF 2] process_schema_cols [OF 1])
qed

lemma process_schema_keys:
  assumes "process_schema d u iv st s = Inr st'"
  shows "set (keys (grouped_rows st')) = set (keys (grouped_rows st)) \<union> set (grouped_names d iv [s])"
  by (auto simp: process_schema_Inr [OF assms] foldl_column_keys_set grouped_names_def)

lemma grouped_names_append:
  "grouped_names d iv (ss @ ts) = grouped_names d iv ss @ grouped_names d iv ts"
  by (simp add: grouped_names_def)

lemma export_loop_keys:
  "export_loop d u iv st ss = Inr st' \<Longrightarrow>
     set (keys (grouped_rows st')) = set (keys (grouped_rows st)) \<union> set (grouped_names d iv ss)"
proof (induction ss arbitrary: st)
  case Nil
  then show ?case by (simp add: grouped_names_def)
next
  case (Cons s ss)
  then obtain st1 where 1: "process_schema d u iv st s = Inr st1"
    and 2: "export_loop d u iv st1 ss = Inr st'"
    by (auto split: sum.splits)
  have "grouped_names d iv (s # ss) = grouped_names d iv [s] @ grouped_names d iv ss"
    using grouped_names_append [of d iv "[s]" ss] by simp
  then show ?case
    using Cons.IH [OF 2] process_schema_keys [OF 1] by auto
qed

lemma column_step_ids_le:
  "state_inv st \<Longrightarrow> entity_ids st \<subseteq>\<^sub>m entity_ids (column_step u T st r)"
  by (auto simp: state_inv_def column_step_ids map_le_def)

lemma foldl_column_ids_le:
  "state_inv st \<Longrightarrow> entity_ids st \<subseteq>\<^sub>m entity_ids (foldl (column_step u T) st rows)"
proof (induction rows arbitrary: st)
  case Nil
  show ?case by simp
next
  case (Cons r rows)
  have "entity_ids st \<subseteq>\<^sub>m entity_ids (column_step u T st r)"
    by (rule column_step_ids_le [OF Cons.prems])
  moreover have "entity_ids (column_step u T st r)
      \<subseteq>\<^sub>m entity_ids (foldl (column_step u T) (column_step u T st r) rows)"
    by (rule Cons.IH [OF column_step_inv [OF Cons.prems]])
  ultimately show ?case
    by (auto intro: map_le_trans)
qed

lemma process_schema_ids_le:
  "state_inv st \<Longrightarrow> process_schema d u iv st s = Inr st' \<Longrightarrow> entity_ids st \<subseteq>\<^sub>m entity_ids st'"
  by (auto dest!: process_schema_Inr simp: foldl_column_ids_le)

lemma export_loop_ids_le:
  "state_inv st \<Longrightarrow> export_loop d u iv st ss = Inr st' \<Longrightarrow> entity_ids st \<subseteq>\<^sub>m entity_ids st'"
proof (induction ss arbitrary: st)
  case Nil
  then show ?case by simp
next
  case (Cons s ss)
  then obtain st1 where 1: "process_schema d u iv st s = Inr st1"
    and 2: "export_loop d u iv st1 ss = Inr st'"
    by (auto split: sum.splits)
  have "entity_ids st \<subseteq>\<^sub>m entity_ids st1"
    by (rule process_schema_ids_le [OF Cons.prems(1) 1])
  moreover have "entity_ids st1 \<subseteq>\<^sub>m entity_ids st'"
    by (rule Cons.IH [OF process_schema_inv [OF Cons.prems(1) 1] 2])
  ultimately show ?case
    by (auto intro: map_le_trans)
qed

lemma emitted_cong_keys: "set ks = set ks' \<Longrightarrow> emitted T ks ids fk = emitted T ks' ids fk"
  by (simp add: emitted_def split: option.splits prod.splits)

lemma emitted_mono_ids:
  assumes "ids \<subseteq>\<^sub>m ids'" and "set ks \<subseteq> dom ids"
  shows "emitted T ks ids fk = emitted T ks ids' fk"
proof -
  have "ids' k = ids k" if "k \<in> set ks" for k
    using assms that unfolding map_le_def by (metis subsetD)
  then show ?thesis
    by (simp add: emitted_def split: option.splits prod.splits)
qed

lemma process_schema_rels:
  assumes "process_schema d u iv st s = Inr st'"
  shows "st_relationships st' = st_relationships st @
           concat (map (emitted (in_scope d iv s) (keys (grouped_rows st')) (entity_ids st'))
                     (get_foreign_keys d s))"
  by (simp add: process_schema_Inr [OF assms] foldl_fk_rels)

lemma export_loop_rels:
  "state_inv st \<Longrightarrow> set (keys (grouped_rows st)) = set (grouped_names d iv pre) \<Longrightarrow>
   export_loop d u iv st ss = Inr st' \<Longrightarrow>
   st_relationships st' = st_relationships st @ expected_relationships d iv (entity_ids st') pre ss"
proof (induction ss arbitrary: st pre)
  case Nil
  then show ?case by simp
next
  case (Cons s ss)
  from Cons.prems(3) obtain st1 where 1: "process_schema d u iv st s = Inr st1"
    and 2: "export_loop d u iv st1 ss = Inr st'"
    by (auto split: sum.splits)
  have inv1: "state_inv st1"
    by (rule process_schema_inv [OF Cons.prems(1) 1])
  have keys1: "set (keys (grouped_rows st1)) = set (grouped_names d iv (pre @ [s]))"
    using process_schema_keys [OF 1] Cons.prems(2) by (simp add: grouped_names_append)
  have le: "entity_ids st1 \<subseteq>\<^sub>m entity_ids st'"
    by (rule export_loop_ids_le [OF inv1 2])
  have dom1: "set (keys (grouped_rows st1)) \<subseteq> dom (entity_ids st1)"
    using inv1 by (simp add: state_inv_def)
  have em: "emitted T (keys (grouped_rows st1)) (entity_ids st1)
              = emitted T (grouped_names d iv (pre @ [s])) (entity_ids st')" for T
  proof
    fix fk
    show "emitted T (keys (grouped_rows st1)) (entity_ids st1) fk
              = emitted T (grouped_names d iv (pre @ [s])) (entity_ids st') fk"
      using emitted_mono_ids [OF le dom1, of T fk]
        emitted_cong_keys [OF keys1, of T "entity_ids st'" fk] by simp
  qed
  show ?case
    using Cons.IH [OF inv1 keys1 2] process_schema_rels [OF 1] by (simp add: em)
qed

lemma build_entities_ok:
  "set (keys g) \<subseteq> dom ids \<Longrightarrow>
     build_entities ids g
       = Inr (map (\<lambda>(n, as). \<lparr>ent_id = the (ids n), ent_name = n, ent_attributes = as\<rparr>) g)"
  by (induction g) (auto split: option.splits sum.splits)

lemma build_entities_Inl: "build_entities ids g = Inl e \<Longrightarrow> \<not> set (keys g) \<subseteq> dom ids"
  using build_entities_ok [of g ids] by auto

lemma snowflake_export_Inr:
  assumes "snowflake_export d u ss iv = Inr doc"
  obtains st where "export_loop d u iv init_state ss = Inr st"
    and "state_inv st"
    and "entities doc = map (\<lambda>(n, as). \<lparr>ent_id = the (entity_ids st n), ent_name = n,
                                          ent_attributes = as\<rparr>) (grouped_rows st)"
    and "relationships doc = st_relationships st"
proof -
  from assms obtain st where 1: "export_loop d u iv init_state ss = Inr st"
    by (auto simp: snowflake_export_def split: sum.splits)
  have inv: "state_inv st"
    by (rule export_loop_inv [OF init_inv 1])
  then have "set (keys (grouped_rows st)) \<subseteq> dom (entity_ids st)"
    by (simp add: state_inv_def)
  from build_entities_ok [OF this] assms 1
  have "doc = \<lparr>model_name = None, level = ''conceptual'', folderId = None,
      entities = map (\<lambda>(n, as). \<lparr>ent_id = the (entity_ids st n), ent_name = n,
                                          ent_attributes = as\<rparr>) (grouped_rows st),
      relationships = st_relationships st\<rparr>"
    by (simp add: snowflake_export_def)
  then show thesis
    using that [OF 1 inv] by simp
qed

lemma snowflake_export_ok:
  "(\<exists>doc. snowflake_export d u ss iv = Inr doc) \<longleftrightarrow> list_all (fetch_ok d iv) ss"
proof
  assume "\<exists>doc. snowflake_export d u ss iv = Inr doc"
  then obtain st where "export_loop d u iv init_state ss = Inr st"
    by (auto simp: snowflake_export_def split: sum.splits)
  then show "list_all (fetch_ok d iv) ss"
    using export_loop_ok [of d u iv init_state ss] by auto
next
  assume "list_all (fetch_ok d iv) ss"
  then obtain st where 1: "export_loop d u iv init_state ss = Inr st"
    using export_loop_ok [of d u iv init_state ss] by auto
  have "state_inv st"
    by (rule export_loop_inv [OF init_inv 1])
  then have "set (keys (grouped_rows st)) \<subseteq> dom (entity_ids st)"
    by (simp add: state_inv_def)
  from build_entities_ok [OF this] 1 show "\<exists>doc. snowflake_export d u ss iv = Inr doc"
    by (simp add: snowflake_export_def)
qed

lemma entities_names:
  "map ent_name (map (\<lambda>(n, as). \<lparr>ent_id = the (ids n), ent_name = n, ent_attributes = as\<rparr>) g)
     = keys g"
  by (induction g) auto

lemma ids_of_entities:
  assumes "dom ids = set (keys g)"
  shows "ids_of (map (\<lambda>(n, as). \<lparr>ent_id = the (ids n), ent_name = n, ent_attributes = as\<rparr>) g) = ids"
proof
  fix k
  let ?es = "map (\<lambda>(n, as). \<lparr>ent_id = the (ids n), ent_name = n, ent_attributes = as\<rparr>) g"
  have *: "map (\<lambda>e. (ent_name e, ent_id e)) ?es = map (\<lambda>n. (n, the (ids n))) (keys g)"
    by (induction g) auto
  show "ids_of ?es k = ids k"
  proof (cases "k \<in> set (keys g)")
    case True
    then have "map_of (map (\<lambda>n. (n, the (ids n))) (keys g)) k = Some (the (ids k))"
      by (simp add: map_of_map_restrict)
    moreover from True assms obtain i where "ids k = Some i" by auto
    ultimately show ?thesis unfolding ids_of_def * by simp
  next
    case False
    then have "map_of (map (\<lambda>n. (n, the (ids n))) (keys g)) k = None"
      by (simp add: map_of_map_restrict)
    moreover from False assms have "ids k = None" by auto
    ultimately show ?thesis unfolding ids_of_def * by simp
  qed
qed

lemma relationships_characterised:
  assumes "snowflake_export d u ss iv = Inr doc"
  shows "relationships doc = expected_relationships d iv (ids_of (entities doc)) [] ss"
proof -
  from assms obtain st where 1: "export_loop d u iv init_state ss = Inr st"
    and inv: "state_inv st"
    and ents: "entities doc = map (\<lambda>(n, as). \<lparr>ent_id = the (entity_ids st n), ent_name = n,
                                          ent_attributes = as\<rparr>) (grouped_rows st)"
    and rels: "relationships doc = st_relationships st"
    by (rule snowflake_export_Inr)
  have "ids_of (entities doc) = entity_ids st"
    using inv by (simp add: ents ids_of_entities state_inv_def)
  moreover have "st_relationships st
      = st_relationships init_state @ expected_relationships d iv (entity_ids st) [] ss"
    by (rule export_loop_rels [OF init_inv _ 1]) (simp add: init_state_def grouped_names_def)
  ultimately show ?thesis
    by (simp add: rels init_state_def)
qed

lemma lookup_member: "distinct (keys g) \<Longrightarrow> (n, as) \<in> set g \<Longrightarrow> lookup g n = as"
  by (simp add: lookup_def keys_def)

lemma entity_in_doc:
  assumes "e \<in> set (map (\<lambda>(n, as). \<lparr>ent_id = the (ids n), ent_name = n, ent_attributes = as\<rparr>) g)"
    and "distinct (keys g)"
  shows "ent_attributes e = lookup g (ent_name e)" and "ent_id e = the (ids (ent_name e))"
    and "ent_name e \<in> set (keys g)"
proof -
  from assms(1) obtain n as where m: "(n, as) \<in> set g"
    and e: "e = \<lparr>ent_id = the (ids n), ent_name = n, ent_attributes = as\<rparr>"
    by auto
  show "ent_attributes e = lookup g (ent_name e)"
    using lookup_member [OF assms(2) m] by (simp add: e)
  show "ent_id e = the (ids (ent_name e))"
    by (simp add: e)
  show "ent_name e \<in> set (keys g)"
    using m by (force simp: e keys_def)
qed

lemma schema_columns_Nil:
  "schema_columns d iv s t = [] \<longleftrightarrow> t \<notin> set (grouped_names d iv [s])"
  by (auto simp: schema_columns_def grouped_names_def filter_empty_conv)

lemma grouped_names_set:
  "set (grouped_names d iv ss)
     = {t. \<exists>s\<in>set ss. t \<in> set (in_scope d iv s) \<and> t \<in> row_table ` set (column_rows d s)}"
  by (auto simp: grouped_names_def)

lemma doc_entities:
  assumes "snowflake_export d u ss iv = Inr doc"
  shows "distinct (map ent_name (entities doc))"
    and "set (map ent_name (entities doc)) = set (grouped_names d iv ss)"
    and "e \<in> set (entities doc) \<Longrightarrow> ent_attributes e \<noteq> []"
    and "e \<in> set (entities doc) \<Longrightarrow>
           map unflag (ent_attributes e) = concat (map (\<lambda>s. schema_columns d iv s (ent_name e)) ss)"
proof -
  from assms obtain st where 1: "export_loop d u iv init_state ss = Inr st"
    and inv: "state_inv st"
    and ents: "entities doc = map (\<lambda>(n, as). \<lparr>ent_id = the (entity_ids st n), ent_name = n,
                                          ent_attributes = as\<rparr>) (grouped_rows st)"
    by (rule snowflake_export_Inr)
  have names: "map ent_name (entities doc) = keys (grouped_rows st)"
    by (simp only: ents entities_names)
  show "distinct (map ent_name (entities doc))"
    using inv by (simp add: names state_inv_def)
  show "set (map ent_name (entities doc)) = set (grouped_names d iv ss)"
    using export_loop_keys [OF 1] by (simp add: names init_state_def)
  have dist: "distinct (keys (grouped_rows st))"
    using inv by (simp add: state_inv_def)
  {
    assume e: "e \<in> set (entities doc)"
    then have a: "ent_attributes e = lookup (grouped_rows st) (ent_name e)"
      and k: "ent_name e \<in> set (keys (grouped_rows st))"
      using entity_in_doc [of e "entity_ids st" "grouped_rows st"] dist by (simp_all add: ents)
    show "ent_attributes e \<noteq> []"
      using inv k by (simp add: a state_inv_def list_all_iff)
    show "map unflag (ent_attributes e) = concat (map (\<lambda>s. schema_columns d iv s (ent_name e)) ss)"
      using export_loop_cols [OF 1, of "ent_name e"]
      by (simp add: a init_state_def lookup_def)
  }
qed

lemma emitted_D:
  assumes "r \<in> set (emitted T ks ids fk)"
  shows "\<exists>fs ft fc ps pt pc pid fid.
           fk_fields fk = Some (fs, ft, fc, ps, pt, pc)
           \<and> ft \<in> set T \<and> pt \<in> set T \<and> ft \<in> set ks \<and> pt \<in> set ks
           \<and> ids pt = Some pid \<and> ids ft = Some fid
           \<and> r = new_relationship pid pt pc fid ft fc"
proof (cases "fk_fields fk")
  case None
  with assms show ?thesis by (simp add: emitted_def)
next
  case (Some f)
  obtain fs ft fc ps pt pc where f: "f = (fs, ft, fc, ps, pt, pc)"
    by (cases f) auto
  have c0: "ft \<in> set T \<and> pt \<in> set T \<and> ft \<in> set ks \<and> pt \<in> set ks"
  proof (rule ccontr)
    assume "\<not> (ft \<in> set T \<and> pt \<in> set T \<and> ft \<in> set ks \<and> pt \<in> set ks)"
    with assms Some f show False
      by (simp add: emitted_def)
  qed
  then have c: "ft \<in> set T" "pt \<in> set T" "ft \<in> set ks" "pt \<in> set ks"
    by simp_all
  with assms Some f
  have m: "r \<in> set (case ids pt of None \<Rightarrow> []
                     | Some pid \<Rightarrow> (case ids ft of None \<Rightarrow> []
                                    | Some fid \<Rightarrow> [new_relationship pid pt pc fid ft fc]))"
    by (simp add: emitted_def)
  then obtain pid where p: "ids pt = Some pid"
    by (cases "ids pt") simp_all
  with m obtain fid where q: "ids ft = Some fid"
    by (cases "ids ft") simp_all
  from m p q have "r = new_relationship pid pt pc fid ft fc"
    by simp
  with Some f c p q show ?thesis by blast
qed

lemma expected_D:
  "r \<in> set (expected_relationships d iv ids pre ss) \<Longrightarrow>
     \<exists>s\<in>set ss. \<exists>fk\<in>set (get_foreign_keys d s).
       r \<in> set (emitted (in_scope d iv s) (grouped_names d iv (pre @ ss)) ids fk)"
proof (induction ss arbitrary: pre)
  case Nil
  then show ?case by simp
next
  case (Cons s ss)
  from Cons.prems have "(\<exists>fk\<in>set (get_foreign_keys d s).
      r \<in> set (emitted (in_scope d iv s) (grouped_names d iv (pre @ [s])) ids fk))
    \<or> r \<in> set (expected_relationships d iv ids (pre @ [s]) ss)"
    by auto
  then show ?case
  proof
    assume "\<exists>fk\<in>set (get_foreign_keys d s).
      r \<in> set (emitted (in_scope d iv s) (grouped_names d iv (pre @ [s])) ids fk)"
    then obtain fk where here: "fk \<in> set (get_foreign_keys d s)"
      "r \<in> set (emitted (in_scope d iv s) (grouped_names d iv (pre @ [s])) ids fk)"
      by auto
    from emitted_D [OF here(2)] obtain fs ft fc ps pt pc pid fid where
      f: "fk_fields fk = Some (fs, ft, fc, ps, pt, pc)"
        "ft \<in> set (in_scope d iv s)" "pt \<in> set (in_scope d iv s)"
        "ft \<in> set (grouped_names d iv (pre @ [s]))" "pt \<in> set (grouped_names d iv (pre @ [s]))"
        "ids pt = Some pid" "ids ft = Some fid"
        "r = new_relationship pid pt pc fid ft fc"
      by blast
    have "set (grouped_names d iv (pre @ [s])) \<subseteq> set (grouped_names d iv (pre @ s # ss))"
      by (auto simp: grouped_names_def)
    then have "ft \<in> set (grouped_names d iv (pre @ s # ss))"
      "pt \<in> set (grouped_names d iv (pre @ s # ss))"
      using f(4,5) by blast+
    with f have "r \<in> set (emitted (in_scope d iv s) (grouped_names d iv (pre @ s # ss)) ids fk)"
      by (simp add: emitted_def)
    with here(1) show ?thesis by auto
  next
    assume later: "r \<in> set (expected_relationships d iv ids (pre @ [s]) ss)"
    from Cons.IH [OF later] show ?thesis by auto
  qed
qed

lemma relationship_provenance:
  assumes "snowflake_export d u ss iv = Inr doc" and "r \<in> set (relationships doc)"
  shows "\<exists>s\<in>set ss. \<exists>fk\<in>set (get_foreign_keys d s). \<exists>fs ft fc ps pt pc pid fid.
           fk_fields fk = Some (fs, ft, fc, ps, pt, pc)
           \<and> ft \<in> set (in_scope d iv s) \<and> pt \<in> set (in_scope d iv s)
           \<and> ft \<in> set (grouped_names d iv ss) \<and> pt \<in> set (grouped_names d iv ss)
           \<and> ids_of (entities doc) pt = Some pid \<and> ids_of (entities doc) ft = Some fid
           \<and> r = new_relationship pid pt pc fid ft fc"
proof -
  from assms have "r \<in> set (expected_relationships d iv (ids_of (entities doc)) [] ss)"
    by (simp add: relationships_characterised)
  from expected_D [OF this] obtain s fk where s: "s \<in> set ss"
    and fk: "fk \<in> set (get_foreign_keys d s)"
    and r: "r \<in> set (emitted (in_scope d iv s) (grouped_names d iv ss) (ids_of (entities doc)) fk)"
    by auto
  from emitted_D [OF r] s fk show ?thesis by blast
qed

section \<open>Entities\<close>

text \<open>
  The documents that the export returns. It returns one exactly when no pass over a
  schema raises. The document then has one entity, and only one, for each table name
  that is in the table listing of some schema and has at least one row in the column
  result of that schema; a listed name without column rows gets no entity; no entity has
  an empty attribute list.
\<close>

lemma entities_of_returned_document:
  "((\<exists>doc. snowflake_export d uuid4 schemas include_views = Inr doc)
      \<longleftrightarrow> list_all (fetch_ok d include_views) schemas)
   \<and> (\<forall>doc. snowflake_export d uuid4 schemas include_views = Inr doc \<longrightarrow>
         distinct (map ent_name (entities doc))
         \<and> set (map ent_name (entities doc))
             = {t. \<exists>s\<in>set schemas. t \<in> set (in_scope d include_views s)
                                   \<and> t \<in> row_table ` set (column_rows d s)}
         \<and> list_all (\<lambda>e. ent_attributes e \<noteq> []) (entities doc))"
proof -
  have "distinct (map ent_name (entities doc))
         \<and> set (map ent_name (entities doc))
             = {t. \<exists>s\<in>set schemas. t \<in> set (in_scope d include_views s)
                                   \<and> t \<in> row_table ` set (column_rows d s)}
         \<and> list_all (\<lambda>e. ent_attributes e \<noteq> []) (entities doc)"
    if h: "snowflake_export d uuid4 schemas include_views = Inr doc" for doc
    using doc_entities(1) [OF h] doc_entities(2) [OF h] doc_entities(3) [OF h]
    by (simp add: grouped_names_set list_all_iff)
  then show ?thesis
    using snowflake_export_ok [of d uuid4 schemas include_views] by blast
qed

text \<open>
  C7 fails on the fallback listing. When the catalog view returns no row, the table
  listing is the result of \<open>SHOW TABLES\<close>, whose rows have the keys \<open>name\<close> and
  \<open>kind\<close> (\<open>_get_tables_and_views\<close> filters them by \<open>kind\<close>), not \<open>TABLE_NAME\<close>.
  The export then subscripts each row with \<open>TABLE_NAME\<close> and raises \<open>KeyError\<close>: for
  the listed table \<open>ORDERS\<close>, which has a column row, there is no entity and no
  document, where the claim has one entity and no error.
\<close>

theorem fallback_listing_raises:
  "execute fallback_db (TablesQuery ''PUBLIC'' True) = Inr []
   \<and> execute fallback_db (ShowTables ''PUBLIC'') = Inr [fallback_row]
   \<and> get_tables_and_views fallback_db ''PUBLIC'' True = Inr [fallback_row]
   \<and> fallback_row ''name'' = Some ''ORDERS''
   \<and> fallback_row ''TABLE_NAME'' = None
   \<and> query_schema_data fallback_db ''PUBLIC''
       = Inr [(''PUBLIC'', ''ORDERS'', ''id'', False, ''NUMBER'')]
   \<and> snowflake_export fallback_db sample_uuid4 [''PUBLIC''] True
       = Inl (KeyError ''TABLE_NAME'')"
proof -
  have 1: "execute fallback_db (TablesQuery ''PUBLIC'' True) = Inr []"
    and 2: "execute fallback_db (ShowTables ''PUBLIC'') = Inr [fallback_row]"
    by (simp_all add: fallback_db_def)
  have 3: "get_tables_and_views fallback_db ''PUBLIC'' True = Inr [fallback_row]"
    by (simp add: get_tables_and_views_def fallback_db_def)
  have 4: "fallback_row ''name'' = Some ''ORDERS''" "fallback_row ''TABLE_NAME'' = None"
    by (simp_all add: fallback_row_def)
  have 5: "query_schema_data fallback_db ''PUBLIC''
       = Inr [(''PUBLIC'', ''ORDERS'', ''id'', False, ''NUMBER'')]"
    by code_simp
  have 6: "snowflake_export fallback_db sample_uuid4 [''PUBLIC''] True
       = Inl (KeyError ''TABLE_NAME'')"
    by code_simp
  from 1 2 3 4 5 6 show ?thesis by simp
qed

text \<open>
  C9: entities are keyed by the table name alone. Over several schemas, the document has
  one entity for a name, whatever the number of schemas the name occurs in; its
  attribute list is, up to the foreign-key flags set later, the concatenation in schema
  order of the column records of that name from every schema that lists it; and every
  relationship end that names the entity carries the entity's one identifier.
\<close>

theorem entities_keyed_by_table_name:
  assumes "snowflake_export d uuid4 schemas include_views = Inr doc"
  shows "distinct (map ent_name (entities doc))
     \<and> (\<forall>t. t \<in> set (map ent_name (entities doc))
              \<longleftrightarrow> (\<exists>s\<in>set schemas. schema_columns d include_views s t \<noteq> []))
     \<and> list_all (\<lambda>e. map unflag (ent_attributes e)
                        = concat (map (\<lambda>s. schema_columns d include_views s (ent_name e)) schemas))
         (entities doc)
     \<and> list_all (\<lambda>r. ids_of (entities doc) (src_name (sourceEntity r)) = Some (src_id (sourceEntity r))
                    \<and> ids_of (entities doc) (tgt_name (targetEntity r)) = Some (tgt_id (targetEntity r)))
         (relationships doc)"
proof -
  have 1: "distinct (map ent_name (entities doc))"
    by (rule doc_entities(1) [OF assms])
  have "set (grouped_names d include_views schemas)
          = {t. \<exists>s\<in>set schemas. schema_columns d include_views s t \<noteq> []}"
    by (auto simp: schema_columns_Nil grouped_names_def)
  then have 2: "\<forall>t. t \<in> set (map ent_name (entities doc))
              \<longleftrightarrow> (\<exists>s\<in>set schemas. schema_columns d include_views s t \<noteq> [])"
    using doc_entities(2) [OF assms] by simp
  have 3: "list_all (\<lambda>e. map unflag (ent_attributes e)
                        = concat (map (\<lambda>s. schema_columns d include_views s (ent_name e)) schemas))
         (entities doc)"
    using doc_entities(4) [OF assms] by (simp add: list_all_iff)
  have 4: "list_all (\<lambda>r. ids_of (entities doc) (src_name (sourceEntity r)) = Some (src_id (sourceEntity r))
                    \<and> ids_of (entities doc) (tgt_name (targetEntity r)) = Some (tgt_id (targetEntity r)))
         (relationships doc)"
    unfolding list_all_iff
  proof
    fix r
    assume "r \<in> set (relationships doc)"
    from relationship_provenance [OF assms this]
    show "ids_of (entities doc) (src_name (sourceEntity r)) = Some (src_id (sourceEntity r))
            \<and> ids_of (entities doc) (tgt_name (targetEntity r)) = Some (tgt_id (targetEntity r))"
      by (auto simp: new_relationship_def)
  qed
  from 1 2 3 4 show ?thesis by blast
qed

theorem entities_keyed_by_table_name_witness:
  "snowflake_export twin_db sample_uuid4 [''A'', ''B''] True = Inr twin_doc
   \<and> map ent_name (entities twin_doc) = [''T'']
   \<and> map (map attr_name \<circ> ent_attributes) (entities twin_doc) = [[''a'', ''b'']]
   \<and> list_all (\<lambda>e. map unflag (ent_attributes e)
                        = concat (map (\<lambda>s. schema_columns twin_db True s (ent_name e)) [''A'', ''B'']))
         (entities twin_doc)"
proof -
  have h: "snowflake_export twin_db sample_uuid4 [''A'', ''B''] True = Inr twin_doc"
    by code_simp
  have n: "map ent_name (entities twin_doc) = [''T'']"
    "map (map attr_name \<circ> ent_attributes) (entities twin_doc) = [[''a'', ''b'']]"
    by (simp_all add: twin_doc_def)
  from entities_keyed_by_table_name [OF h] h n show ?thesis by blast
qed

section \<open>Relationships\<close>

text \<open>
  C5: every relationship of the document comes from a foreign-key row of some schema:
  its source end is the referenced (primary-key) table with the identifier of that
  table's entity, the tag \<open>one\<close> and the referenced column as its only attribute name;
  its target end is the referencing (foreign-key) table with the identifier of that
  table's entity, the tag \<open>many\<close> and the referencing column.
\<close>

theorem relationship_direction:
  assumes "snowflake_export d uuid4 schemas include_views = Inr doc"
  shows "list_all
           (\<lambda>r. \<exists>s\<in>set schemas. \<exists>fk\<in>set (get_foreign_keys d s).
                  \<exists>fk_schema fk_table fk_column pk_schema pk_table pk_column pk_id fk_id.
                    fk_fields fk
                      = Some (fk_schema, fk_table, fk_column, pk_schema, pk_table, pk_column)
                    \<and> ids_of (entities doc) pk_table = Some pk_id
                    \<and> ids_of (entities doc) fk_table = Some fk_id
                    \<and> sourceEntity r = \<lparr>src_id = pk_id, src_name = pk_table, startType = ''one'',
                                         src_attributeNames = [pk_column]\<rparr>
                    \<and> targetEntity r = \<lparr>tgt_id = fk_id, tgt_name = fk_table, endType = ''many'',
                                         tgt_attributeNames = [fk_column]\<rparr>
                    \<and> description r = [])
           (relationships doc)"
  unfolding list_all_iff
proof
  fix r
  assume "r \<in> set (relationships doc)"
  from relationship_provenance [OF assms this]
  obtain s fk fs ft fc ps pt pc pid fid where
    "s \<in> set schemas" "fk \<in> set (get_foreign_keys d s)"
    "fk_fields fk = Some (fs, ft, fc, ps, pt, pc)"
    "ids_of (entities doc) pt = Some pid" "ids_of (entities doc) ft = Some fid"
    "r = new_relationship pid pt pc fid ft fc"
    by blast
  then show "\<exists>s\<in>set schemas. \<exists>fk\<in>set (get_foreign_keys d s).
                  \<exists>fk_schema fk_table fk_column pk_schema pk_table pk_column pk_id fk_id.
                    fk_fields fk
                      = Some (fk_schema, fk_table, fk_column, pk_schema, pk_table, pk_column)
                    \<and> ids_of (entities doc) pk_table = Some pk_id
                    \<and> ids_of (entities doc) fk_table = Some fk_id
                    \<and> sourceEntity r = \<lparr>src_id = pk_id, src_name = pk_table, startType = ''one'',
                                         src_attributeNames = [pk_column]\<rparr>
                    \<and> targetEntity r = \<lparr>tgt_id = fk_id, tgt_name = fk_table, endType = ''many'',
                                         tgt_attributeNames = [fk_column]\<rparr>
                    \<and> description r = []"
    unfolding new_relationship_def by (intro bexI exI conjI) simp_all
qed

theorem relationship_direction_witness:
  "snowflake_export shop_db sample_uuid4 [''PUBLIC''] True = Inr shop_doc
   \<and> relationships shop_doc
       = [\<lparr>sourceEntity = \<lparr>src_id = ''uuid-'', src_name = ''CUSTOMERS'', startType = ''one'',
                            src_attributeNames = [''id'']\<rparr>,
           targetEntity = \<lparr>tgt_id = ''uuid-i'', tgt_name = ''ORDERS'', endType = ''many'',
                            tgt_attributeNames = [''customer_id'']\<rparr>,
           description = []\<rparr>]
   \<and> list_all
        (\<lambda>r. \<exists>s\<in>set [''PUBLIC'']. \<exists>fk\<in>set (get_foreign_keys shop_db s).
               \<exists>fk_schema fk_table fk_column pk_schema pk_table pk_column pk_id fk_id.
                 fk_fields fk
                   = Some (fk_schema, fk_table, fk_column, pk_schema, pk_table, pk_column)
                 \<and> ids_of (entities shop_doc) pk_table = Some pk_id
                 \<and> ids_of (entities shop_doc) fk_table = Some fk_id
                 \<and> sourceEntity r = \<lparr>src_id = pk_id, src_name = pk_table, startType = ''one'',
                                      src_attributeNames = [pk_column]\<rparr>
                 \<and> targetEntity r = \<lparr>tgt_id = fk_id, tgt_name = fk_table, endType = ''many'',
                                      tgt_attributeNames = [fk_column]\<rparr>
                 \<and> description r = [])
        (relationships shop_doc)"
proof -
  have h: "snowflake_export shop_db sample_uuid4 [''PUBLIC''] True = Inr shop_doc"
    by code_simp
  have n: "relationships shop_doc
       = [\<lparr>sourceEntity = \<lparr>src_id = ''uuid-'', src_name = ''CUSTOMERS'', startType = ''one'',
                            src_attributeNames = [''id'']\<rparr>,
           targetEntity = \<lparr>tgt_id = ''uuid-i'', tgt_name = ''ORDERS'', endType = ''many'',
                            tgt_attributeNames = [''customer_id'']\<rparr>,
           description = []\<rparr>]"
    by (simp add: shop_doc_def new_relationship_def)
  from relationship_direction [OF h] h n show ?thesis by blast
qed

text \<open>
  C1, as the code has it: the export removes no duplicate. Its relationship list is, for
  each schema in turn, what each foreign-key row of that schema emits, in row order: one
  relationship for a row that passes the checks of the loop body (all six keys, both
  tables in the schema's table listing, both already grouped), none otherwise. A 4-tuple
  that \<open>n\<close> such rows carry is emitted \<open>n\<close> times.
\<close>

theorem relationship_per_foreign_key_row:
  assumes "snowflake_export d uuid4 schemas include_views = Inr doc"
  shows "relationships doc
           = expected_relationships d include_views (ids_of (entities doc)) [] schemas
         \<and> list_all (\<lambda>s. list_all (\<lambda>fk. length (emitted (in_scope d include_views s)
                                                  (grouped_names d include_views schemas)
                                                  (ids_of (entities doc)) fk) \<le> 1)
                             (get_foreign_keys d s)) schemas"
proof -
  have "length (emitted T ks ids fk) \<le> 1" for T ks ids fk
    by (simp add: emitted_def split: option.splits prod.splits)
  then show ?thesis
    using relationships_characterised [OF assms] by (simp add: list_all_iff)
qed

theorem relationship_per_foreign_key_row_witness:
  "snowflake_export dup_db sample_uuid4 [''PUBLIC''] True
     = Inr (shop_doc\<lparr>relationships := [shop_relationship, shop_relationship, shop_relationship]\<rparr>)
   \<and> [shop_relationship, shop_relationship, shop_relationship]
       = expected_relationships dup_db True (ids_of (entities shop_doc)) [] [''PUBLIC'']"
proof -
  have h: "snowflake_export dup_db sample_uuid4 [''PUBLIC''] True
     = Inr (shop_doc\<lparr>relationships := [shop_relationship, shop_relationship, shop_relationship]\<rparr>)"
    by code_simp
  from relationship_per_foreign_key_row [OF h] h show ?thesis by simp
qed

theorem duplicate_rows_counterexample:
  "map fk_fields (get_foreign_keys dup_db ''PUBLIC'')
     = [Some ([], ''ORDERS'', ''customer_id'', [], ''CUSTOMERS'', ''id''),
        Some ([], ''ORDERS'', ''customer_id'', [], ''CUSTOMERS'', ''id''),
        Some ([], ''ORDERS'', ''customer_id'', [], ''CUSTOMERS'', ''id'')]
   \<and> snowflake_export dup_db sample_uuid4 [''PUBLIC''] True
       = Inr (shop_doc\<lparr>relationships := [shop_relationship, shop_relationship, shop_relationship]\<rparr>)"
  by code_simp

lemma ids_of_entity:
  "distinct (map ent_name es) \<Longrightarrow> e \<in> set es \<Longrightarrow> ids_of es (ent_name e) = Some (ent_id e)"
proof -
  assume d: "distinct (map ent_name es)" and e: "e \<in> set es"
  have "map fst (map (\<lambda>e. (ent_name e, ent_id e)) es) = map ent_name es"
    by simp
  with d have "distinct (map fst (map (\<lambda>e. (ent_name e, ent_id e)) es))"
    by (simp only:)
  moreover from e have "(ent_name e, ent_id e) \<in> set (map (\<lambda>e. (ent_name e, ent_id e)) es)"
    by auto
  ultimately show ?thesis
    unfolding ids_of_def by (rule map_of_is_SomeI)
qed

lemma attr_name_unflag [simp]: "attr_name (unflag a) = attr_name a"
  by (simp add: unflag_def)

lemma attr_name_new_attribute [simp]: "attr_name (new_attribute r) = row_column r"
  by (cases r) (simp add: new_attribute_def row_column_def)

lemma listed_column_in_schema_columns:
  assumes "(t, c) \<in> set (listed_columns d s)" and "t \<in> set (in_scope d iv s)"
  shows "c \<in> set (map attr_name (schema_columns d iv s t))"
proof -
  from assms(1) obtain r where r: "r \<in> set (column_rows d s)" "row_table r = t" "row_column r = c"
    by (auto simp: listed_columns_def)
  then have "new_attribute r \<in> set (schema_columns d iv s t)"
    using assms(2) by (simp add: schema_columns_def)
  then have "attr_name (new_attribute r) \<in> set (map attr_name (schema_columns d iv s t))"
    by (simp del: attr_name_new_attribute)
  with r(3) show ?thesis by simp
qed

lemma listed_column_in_entity:
  assumes h: "snowflake_export d u ss iv = Inr doc"
    and s: "s \<in> set ss" and c: "(t, c) \<in> set (listed_columns d s)"
    and t: "t \<in> set (in_scope d iv s)" and e: "e \<in> set (entities doc)" and n: "ent_name e = t"
  shows "c \<in> set (map attr_name (ent_attributes e))"
proof -
  have "c \<in> set (map attr_name (schema_columns d iv s t))"
    by (rule listed_column_in_schema_columns [OF c t])
  with s have "c \<in> set (map attr_name (concat (map (\<lambda>s. schema_columns d iv s t) ss)))"
    by auto
  then have "c \<in> set (map attr_name (map unflag (ent_attributes e)))"
    using doc_entities(4) [OF h e] n by simp
  then show ?thesis
    by (simp add: comp_def)
qed

lemma entity_of_grouped_name:
  assumes h: "snowflake_export d u ss iv = Inr doc" and t: "t \<in> set (grouped_names d iv ss)"
  obtains e where "e \<in> set (entities doc)" "ent_name e = t" "ids_of (entities doc) t = Some (ent_id e)"
proof -
  from t doc_entities(2) [OF h] have "t \<in> set (map ent_name (entities doc))"
    by simp
  then obtain e where e: "e \<in> set (entities doc)" "ent_name e = t"
    by auto
  from ids_of_entity [OF doc_entities(1) [OF h] e(1)] e(2)
  have "ids_of (entities doc) t = Some (ent_id e)" by simp
  with e that show thesis by blast
qed

text \<open>
  C2, as the code has it: the loop never looks a foreign-key column up in the attribute
  list, so a relationship can name a column its entity does not have. The ends of every
  relationship do refer to entities of the document, by name and identifier; and their
  attribute names are attributes of those entities when, in every schema, the
  foreign-key rows between listed tables name only columns that the schema's column
  query returned for those tables.
\<close>

theorem no_dangling_attribute_when_columns_listed:
  assumes "snowflake_export d uuid4 schemas include_views = Inr doc"
    and "list_all (columns_listed d include_views) schemas"
  shows "list_all
           (\<lambda>r. (\<exists>e\<in>set (entities doc).
                    ent_name e = src_name (sourceEntity r) \<and> ent_id e = src_id (sourceEntity r)
                    \<and> set (src_attributeNames (sourceEntity r)) \<subseteq> set (map attr_name (ent_attributes e)))
               \<and> (\<exists>e\<in>set (entities doc).
                    ent_name e = tgt_name (targetEntity r) \<and> ent_id e = tgt_id (targetEntity r)
                    \<and> set (tgt_attributeNames (targetEntity r)) \<subseteq> set (map attr_name (ent_attributes e))))
           (relationships doc)"
  unfolding list_all_iff
proof
  fix r
  assume "r \<in> set (relationships doc)"
  from relationship_provenance [OF assms(1) this]
  obtain s fk fs ft fc ps pt pc pid fid where
    s: "s \<in> set schemas" and fk: "fk \<in> set (get_foreign_keys d s)"
    and f: "fk_fields fk = Some (fs, ft, fc, ps, pt, pc)"
    and sc: "ft \<in> set (in_scope d include_views s)" "pt \<in> set (in_scope d include_views s)"
    and g: "ft \<in> set (grouped_names d include_views schemas)"
      "pt \<in> set (grouped_names d include_views schemas)"
    and i: "ids_of (entities doc) pt = Some pid" "ids_of (entities doc) ft = Some fid"
    and r: "r = new_relationship pid pt pc fid ft fc"
    by blast
  from assms(2) s have "columns_listed d include_views s"
    by (simp add: list_all_iff)
  with fk f sc have l: "(ft, fc) \<in> set (listed_columns d s)" "(pt, pc) \<in> set (listed_columns d s)"
    by (auto simp: columns_listed_def list_all_iff)
  from entity_of_grouped_name [OF assms(1) g(2)] obtain ep where
    ep: "ep \<in> set (entities doc)" "ent_name ep = pt" "ids_of (entities doc) pt = Some (ent_id ep)"
    by blast
  from entity_of_grouped_name [OF assms(1) g(1)] obtain ef where
    ef: "ef \<in> set (entities doc)" "ent_name ef = ft" "ids_of (entities doc) ft = Some (ent_id ef)"
    by blast
  have "pc \<in> set (map attr_name (ent_attributes ep))"
    by (rule listed_column_in_entity [OF assms(1) s l(2) sc(2) ep(1,2)])
  with ep i(1) have 1: "\<exists>e\<in>set (entities doc).
                    ent_name e = src_name (sourceEntity r) \<and> ent_id e = src_id (sourceEntity r)
                    \<and> set (src_attributeNames (sourceEntity r)) \<subseteq> set (map attr_name (ent_attributes e))"
    by (intro bexI [of _ ep]) (simp_all add: r new_relationship_def)
  have "fc \<in> set (map attr_name (ent_attributes ef))"
    by (rule listed_column_in_entity [OF assms(1) s l(1) sc(1) ef(1,2)])
  with ef i(2) have 2: "\<exists>e\<in>set (entities doc).
                    ent_name e = tgt_name (targetEntity r) \<and> ent_id e = tgt_id (targetEntity r)
                    \<and> set (tgt_attributeNames (targetEntity r)) \<subseteq> set (map attr_name (ent_attributes e))"
    by (intro bexI [of _ ef]) (simp_all add: r new_relationship_def)
  from 1 2 show "(\<exists>e\<in>set (entities doc).
                    ent_name e = src_name (sourceEntity r) \<and> ent_id e = src_id (sourceEntity r)
                    \<and> set (src_attributeNames (sourceEntity r)) \<subseteq> set (map attr_name (ent_attributes e)))
               \<and> (\<exists>e\<in>set (entities doc).
                    ent_name e = tgt_name (targetEntity r) \<and> ent_id e = tgt_id (targetEntity r)
                    \<and> set (tgt_attributeNames (targetEntity r)) \<subseteq> set (map attr_name (ent_attributes e)))"
    by blast
qed

theorem no_dangling_attribute_when_columns_listed_witness:
  "snowflake_export shop_db sample_uuid4 [''PUBLIC''] True = Inr shop_doc
   \<and> list_all (columns_listed shop_db True) [''PUBLIC'']
   \<and> list_all
       (\<lambda>r. (\<exists>e\<in>set (entities shop_doc).
                ent_name e = src_name (sourceEntity r) \<and> ent_id e = src_id (sourceEntity r)
                \<and> set (src_attributeNames (sourceEntity r)) \<subseteq> set (map attr_name (ent_attributes e)))
           \<and> (\<exists>e\<in>set (entities shop_doc).
                ent_name e = tgt_name (targetEntity r) \<and> ent_id e = tgt_id (targetEntity r)
                \<and> set (tgt_attributeNames (targetEntity r)) \<subseteq> set (map attr_name (ent_attributes e))))
       (relationships shop_doc)"
proof -
  have h: "snowflake_export shop_db sample_uuid4 [''PUBLIC''] True = Inr shop_doc"
    by code_simp
  have c: "list_all (columns_listed shop_db True) [''PUBLIC'']"
    by code_simp
  from no_dangling_attribute_when_columns_listed [OF h c] h c show ?thesis by blast
qed

theorem dangling_attribute_counterexample:
  "snowflake_export dangling_db sample_uuid4 [''SALES''] True = Inr dangling_doc
   \<and> map (src_name \<circ> sourceEntity) (relationships dangling_doc) = [''CUSTOMERS'']
   \<and> map (src_attributeNames \<circ> sourceEntity) (relationships dangling_doc) = [[''id'']]
   \<and> map ent_name (entities dangling_doc) = [''CUSTOMERS'', ''ORDERS'']
   \<and> map (map attr_name \<circ> ent_attributes) (entities dangling_doc)
       = [[''email''], [''customer_id'']]"
  by code_simp

section \<open>Foreign-key flags\<close>

subsection \<open>The flags of an attribute list after a pass\<close>

lemma attr_FK_new_attribute [simp]: "\<not> attr_FK (new_attribute r)"
  by (cases r) (simp add: new_attribute_def)

lemma mark_by_False [simp]: "mark_by (\<lambda>c. False) a = a"
  by (simp add: mark_by_def)

lemma map_mark_by_False [simp]: "map (mark_by (\<lambda>c. False)) as = as"
  by (induction as) simp_all

lemma mark_by_mark_by: "mark_by P (mark_by Q a) = mark_by (\<lambda>c. Q c \<or> P c) a"
  by (simp add: mark_by_def)

lemma mark_fk_mark_by: "mark_fk fc as = map (mark_by (\<lambda>c. c = fc)) as"
  by (simp add: mark_fk_def mark_by_def)

lemma row_flags_Nil [simp]: "row_flags T [] t c = False"
  by (simp add: row_flags_def)

lemma row_flags_Cons:
  "row_flags T (fk # fks) t c \<longleftrightarrow> row_flags T [fk] t c \<or> row_flags T fks t c"
  by (simp add: row_flags_def)

lemma fk_step_lookup_mark_by:
  "lookup (grouped_rows (fk_step T st fk)) t
     = map (mark_by (row_flags T [fk] t)) (lookup (grouped_rows st) t)"
proof (cases "fk_fields fk")
  case None
  then have "row_flags T [fk] t = (\<lambda>c. False)"
    by (simp add: row_flags_def fun_eq_iff)
  with None show ?thesis
    by (simp add: fk_step_lookup)
next
  case (Some f)
  obtain fs ft fc ps pt pc where f: "f = (fs, ft, fc, ps, pt, pc)"
    by (cases f) auto
  show ?thesis
  proof (cases "ft \<in> set T \<and> pt \<in> set T \<and> t = ft")
    case True
    then have "row_flags T [fk] t = (\<lambda>c. c = fc)"
      using Some f by (auto simp: row_flags_def fun_eq_iff)
    with True Some f show ?thesis
      by (simp add: fk_step_lookup mark_fk_mark_by)
  next
    case False
    then have "row_flags T [fk] t = (\<lambda>c. False)"
      using Some f by (auto simp: row_flags_def fun_eq_iff)
    with False Some f show ?thesis
      by (auto simp: fk_step_lookup)
  qed
qed

lemma foldl_fk_lookup_mark_by:
  "lookup (grouped_rows (foldl (fk_step T) st fks)) t
     = map (mark_by (row_flags T fks t)) (lookup (grouped_rows st) t)"
proof (induction fks arbitrary: st)
  case Nil
  then show ?case by simp
next
  case (Cons fk fks)
  have "(\<lambda>c. row_flags T [fk] t c \<or> row_flags T fks t c) = row_flags T (fk # fks) t"
    using row_flags_Cons [of T fk fks t] by (simp add: fun_eq_iff)
  then show ?case
    by (simp add: Cons.IH fk_step_lookup_mark_by mark_by_mark_by comp_def)
qed

lemma flag_source_Cons:
  "flag_source d iv (s # ss) t c
     \<longleftrightarrow> row_flags (in_scope d iv s) (get_foreign_keys d s) t c \<or> flag_source d iv ss t c"
  by (simp add: flag_source_def row_flags_def)

lemma flag_source_Nil [simp]: "flag_source d iv [] t c = False"
  by (simp add: flag_source_def)

lemma mark_by_new:
  "\<not> attr_FK a \<Longrightarrow> mark_by P a = a\<lparr>attr_FK := P (attr_name a)\<rparr>"
  by (simp add: mark_by_def)

lemma schema_columns_unflagged: "a \<in> set (schema_columns d iv s t) \<Longrightarrow> \<not> attr_FK a"
  by (auto simp: schema_columns_def split: if_splits)

lemma process_schema_lookup:
  assumes "process_schema d u iv st s = Inr st'"
  shows "lookup (grouped_rows st') t
           = map (mark_by (row_flags (in_scope d iv s) (get_foreign_keys d s) t))
               (lookup (grouped_rows st) t @ schema_columns d iv s t)"
  by (simp add: process_schema_Inr [OF assms] foldl_fk_lookup_mark_by foldl_column_lookup
        schema_columns_def)

lemma export_loop_lookup:
  "export_loop d u iv st ss = Inr st' \<Longrightarrow>
     lookup (grouped_rows st') t
       = map (mark_by (flag_source d iv ss t)) (lookup (grouped_rows st) t)
         @ expected_attributes d iv t ss"
proof (induction ss arbitrary: st)
  case Nil
  have "flag_source d iv [] t = (\<lambda>c. False)"
    by (simp add: fun_eq_iff)
  with Nil show ?case by simp
next
  case (Cons s ss)
  then obtain st1 where 1: "process_schema d u iv st s = Inr st1"
    and 2: "export_loop d u iv st1 ss = Inr st'"
    by (auto split: sum.splits)
  let ?R = "row_flags (in_scope d iv s) (get_foreign_keys d s) t"
  have fs: "(\<lambda>c. ?R c \<or> flag_source d iv ss t c) = flag_source d iv (s # ss) t"
    using flag_source_Cons [of d iv s ss t] by (simp add: fun_eq_iff)
  have new: "map (mark_by (flag_source d iv (s # ss) t)) (schema_columns d iv s t)
      = map (\<lambda>a. a\<lparr>attr_FK := flag_source d iv (s # ss) t (attr_name a)\<rparr>)
          (schema_columns d iv s t)"
    by (rule map_cong [OF refl]) (simp add: mark_by_new schema_columns_unflagged)
  have "lookup (grouped_rows st') t
      = map (mark_by (flag_source d iv ss t)) (lookup (grouped_rows st1) t)
        @ expected_attributes d iv t ss"
    by (rule Cons.IH [OF 2])
  also have "map (mark_by (flag_source d iv ss t)) (lookup (grouped_rows st1) t)
      = map (mark_by (flag_source d iv (s # ss) t))
          (lookup (grouped_rows st) t @ schema_columns d iv s t)"
    by (simp only: process_schema_lookup [OF 1] map_map comp_def mark_by_mark_by fs)
  finally show ?case
    by (simp add: new)
qed

lemma doc_attributes:
  assumes h: "snowflake_export d u ss iv = Inr doc" and e: "e \<in> set (entities doc)"
  shows "ent_attributes e = expected_attributes d iv (ent_name e) ss"
proof -
  from h obtain st where 1: "export_loop d u iv init_state ss = Inr st"
    and inv: "state_inv st"
    and ents: "entities doc = map (\<lambda>(n, as). \<lparr>ent_id = the (entity_ids st n), ent_name = n,
                                          ent_attributes = as\<rparr>) (grouped_rows st)"
    by (rule snowflake_export_Inr)
  have "ent_attributes e = lookup (grouped_rows st) (ent_name e)"
    using entity_in_doc(1) [of e "entity_ids st" "grouped_rows st"] e inv
    by (simp add: ents state_inv_def)
  then show ?thesis
    using export_loop_lookup [OF 1, of "ent_name e"]
    by (simp add: init_state_def lookup_def)
qed

text \<open>
  C4, as the code has it. A foreign-key row is skipped entirely when one of its two
  tables is not in the schema's table listing, and it changes nothing when its
  referencing table has no grouped column records at the time the row is processed
  (records grouped by a later schema come too late). Between two listed tables, the flag
  is set on the grouped attributes of the referencing table that bear the referencing
  column's name, also when the referenced table has no grouped column records; the
  relationship is emitted only when both tables are grouped. All rows are processed
  before the entity list is built, so the document carries exactly these flags and
  relationships: each entity's attribute list is \<open>expected_attributes\<close> of its name, and
  the relationship list is \<open>expected_relationships\<close>.
\<close>

theorem foreign_key_flags_and_relationships:
  assumes "snowflake_export d uuid4 schemas include_views = Inr doc"
  shows "list_all
           (\<lambda>e. ent_attributes e = expected_attributes d include_views (ent_name e) schemas)
           (entities doc)
       \<and> relationships doc
           = expected_relationships d include_views (ids_of (entities doc)) [] schemas"
  using doc_attributes [OF assms] relationships_characterised [OF assms]
  by (simp add: list_all_iff)

theorem foreign_key_flags_and_relationships_witness:
  "snowflake_export late_db sample_uuid4 [''A'', ''B''] True = Inr late_doc
   \<and> snowflake_export late_db sample_uuid4 [''B'', ''A''] True = Inr early_doc
   \<and> map (map attr_FK \<circ> ent_attributes) (entities late_doc) = [[False], [False]]
   \<and> relationships late_doc = []
   \<and> map (map attr_FK \<circ> ent_attributes) (entities early_doc) = [[True], [False]]
   \<and> list_all
        (\<lambda>e. ent_attributes e = expected_attributes late_db True (ent_name e) [''A'', ''B''])
        (entities late_doc)
   \<and> relationships late_doc
        = expected_relationships late_db True (ids_of (entities late_doc)) [] [''A'', ''B'']
   \<and> list_all
        (\<lambda>e. ent_attributes e = expected_attributes late_db True (ent_name e) [''B'', ''A''])
        (entities early_doc)
   \<and> relationships early_doc
        = expected_relationships late_db True (ids_of (entities early_doc)) [] [''B'', ''A'']"
proof -
  have h1: "snowflake_export late_db sample_uuid4 [''A'', ''B''] True = Inr late_doc"
    by code_simp
  have h2: "snowflake_export late_db sample_uuid4 [''B'', ''A''] True = Inr early_doc"
    by code_simp
  have n: "map (map attr_FK \<circ> ent_attributes) (entities late_doc) = [[False], [False]]"
    "relationships late_doc = []"
    "map (map attr_FK \<circ> ent_attributes) (entities early_doc) = [[True], [False]]"
    by (simp_all add: late_doc_def early_doc_def)
  from foreign_key_flags_and_relationships [OF h1] foreign_key_flags_and_relationships [OF h2]
    h1 h2 n
  show ?thesis by blast
qed

theorem flag_without_relationship_counterexample:
  "snowflake_export orphan_db sample_uuid4 [''PUBLIC''] True = Inr orphan_doc
   \<and> map fk_fields (get_foreign_keys orphan_db ''PUBLIC'')
       = [Some ([], ''ORDERS'', ''customer_id'', [], ''ORPHAN'', ''id'')]
   \<and> in_scope orphan_db True ''PUBLIC'' = [''ORDERS'', ''ORPHAN'']
   \<and> grouped_names orphan_db True [''PUBLIC''] = [''ORDERS'', ''ORDERS'']
   \<and> map ent_name (entities orphan_doc) = [''ORDERS'']
   \<and> map (map attr_name \<circ> ent_attributes) (entities orphan_doc) = [[''id'', ''customer_id'']]
   \<and> map (map attr_FK \<circ> ent_attributes) (entities orphan_doc) = [[False, True]]
   \<and> relationships orphan_doc = []"
  by code_simp

section \<open>Two runs over the same catalog\<close>

lemma column_step_same_shape:
  "same_shape st1 st2 \<Longrightarrow> same_shape (column_step u1 T st1 r) (column_step u2 T st2 r)"
  by (simp add: same_shape_def column_step_def Let_def)

lemma foldl_column_same_shape:
  "same_shape st1 st2 \<Longrightarrow>
     same_shape (foldl (column_step u1 T) st1 rows) (foldl (column_step u2 T) st2 rows)"
  by (induction rows arbitrary: st1 st2) (simp_all add: column_step_same_shape)

lemma erase_new_relationship:
  "erase_rel_ids (new_relationship pid pt pc fid ft fc) = new_relationship [] pt pc [] ft fc"
  by (simp add: erase_rel_ids_def new_relationship_def)

lemma emitted_same_shape:
  assumes "dom ids1 = dom ids2"
  shows "map erase_rel_ids (emitted T ks ids1 fk) = map erase_rel_ids (emitted T ks ids2 fk)"
proof (cases "fk_fields fk")
  case None
  then show ?thesis by (simp add: emitted_def)
next
  case (Some f)
  obtain fs ft fc ps pt pc where f: "f = (fs, ft, fc, ps, pt, pc)"
    by (cases f) auto
  have n: "ids1 k = None \<longleftrightarrow> ids2 k = None" for k
    using assms by (metis domIff)
  show ?thesis
  proof (cases "ids1 pt")
    case None
    with n [of pt] Some f show ?thesis by (simp add: emitted_def)
  next
    case p1: (Some p1)
    with n [of pt] obtain p2 where p2: "ids2 pt = Some p2" by auto
    show ?thesis
    proof (cases "ids1 ft")
      case None
      with n [of ft] Some f p1 p2 show ?thesis by (simp add: emitted_def)
    next
      case q1: (Some q1)
      with n [of ft] obtain q2 where q2: "ids2 ft = Some q2" by auto
      from Some f p1 p2 q1 q2 show ?thesis
        by (simp add: emitted_def erase_new_relationship)
    qed
  qed
qed

lemma fk_step_grouped:
  "grouped_rows st1 = grouped_rows st2 \<Longrightarrow>
     grouped_rows (fk_step T st1 fk) = grouped_rows (fk_step T st2 fk)"
proof (cases "fk_fields fk")
  case None
  assume "grouped_rows st1 = grouped_rows st2"
  with None show ?thesis by (simp add: fk_step_def)
next
  case (Some f)
  assume g: "grouped_rows st1 = grouped_rows st2"
  obtain fs ft fc ps pt pc where f: "f = (fs, ft, fc, ps, pt, pc)"
    by (cases f) auto
  have "grouped_rows (fk_step T st fk)
          = (if ft \<in> set T \<and> pt \<in> set T \<and> ft \<in> set (keys (grouped_rows st))
             then update_attrs ft (mark_fk fc) (grouped_rows st) else grouped_rows st)" for st
    using Some f by (simp add: fk_step_def Let_def split: option.splits)
  with g show ?thesis by simp
qed

lemma fk_step_same_shape:
  assumes "same_shape st1 st2"
  shows "same_shape (fk_step T st1 fk) (fk_step T st2 fk)"
proof -
  from assms have g: "grouped_rows st1 = grouped_rows st2"
    and i: "dom (entity_ids st1) = dom (entity_ids st2)"
    and r: "map erase_rel_ids (st_relationships st1) = map erase_rel_ids (st_relationships st2)"
    by (simp_all add: same_shape_def)
  show ?thesis
    unfolding same_shape_def
    using fk_step_grouped [OF g] i r emitted_same_shape [OF i]
    by (simp add: fk_step_rels g)
qed

lemma foldl_fk_same_shape:
  "same_shape st1 st2 \<Longrightarrow>
     same_shape (foldl (fk_step T) st1 fks) (foldl (fk_step T) st2 fks)"
  by (induction fks arbitrary: st1 st2) (simp_all add: fk_step_same_shape)

lemma process_schema_Inl:
  "process_schema d u1 iv st1 s = Inl e \<Longrightarrow> process_schema d u2 iv st2 s = Inl e"
  by (auto simp: process_schema_def Let_def split: sum.splits list.splits)

lemma process_schema_same_shape:
  assumes "same_shape st1 st2"
    and "process_schema d u1 iv st1 s = Inr st1'" and "process_schema d u2 iv st2 s = Inr st2'"
  shows "same_shape st1' st2'"
  unfolding process_schema_Inr [OF assms(2)] process_schema_Inr [OF assms(3)]
  by (intro foldl_fk_same_shape foldl_column_same_shape assms(1))

lemma export_loop_same_shape:
  "same_shape st1 st2 \<Longrightarrow>
     (case export_loop d ua iv st1 ss of
        Inl e \<Rightarrow> export_loop d ub iv st2 ss = Inl e
      | Inr st1' \<Rightarrow> (\<exists>st2'. export_loop d ub iv st2 ss = Inr st2' \<and> same_shape st1' st2'))"
proof (induction ss arbitrary: st1 st2)
  case Nil
  then show ?case by simp
next
  case (Cons s ss)
  show ?case
  proof (cases "process_schema d ua iv st1 s")
    case (Inl e)
    from process_schema_Inl [OF this] Inl show ?thesis by simp
  next
    case (Inr a)
    show ?thesis
    proof (cases "process_schema d ub iv st2 s")
      case (Inl e)
      from process_schema_Inl [OF this, of ua st1] Inr show ?thesis by simp
    next
      case b: (Inr b)
      have "same_shape a b"
        by (rule process_schema_same_shape [OF Cons.prems Inr b])
      from Cons.IH [OF this] Inr b show ?thesis
        by (auto split: sum.splits)
    qed
  qed
qed

lemma erase_built_entities:
  "map (\<lambda>e. e\<lparr>ent_id := []\<rparr>)
     (map (\<lambda>(n, as). \<lparr>ent_id = the (ids n), ent_name = n, ent_attributes = as\<rparr>) g)
   = map (\<lambda>(n, as). \<lparr>ent_id = [], ent_name = n, ent_attributes = as\<rparr>) g"
  by (induction g) auto

text \<open>
  C8: two runs of the export over the same catalog answers, whatever identifiers
  \<open>uuid.uuid4()\<close> hands out in each, raise the same exception or return documents that
  are equal once the identifiers are erased: the same entity names in the same order,
  the same attribute lists (names, PK and FK flags, data types, order), the same
  relationships (names, attribute names, cardinality tags, order).
\<close>

theorem export_deterministic_up_to_ids:
  "map_sum id erase_ids (snowflake_export d uuid4 schemas include_views)
     = map_sum id erase_ids (snowflake_export d uuid4' schemas include_views)"
proof -
  have s0: "same_shape init_state init_state"
    by (simp add: same_shape_def)
  show ?thesis
  proof (cases "export_loop d uuid4 include_views init_state schemas")
    case (Inl e)
    with export_loop_same_shape [OF s0, where d = d and ua = uuid4 and iv = include_views
        and ss = schemas and ub = uuid4']
    have "export_loop d uuid4' include_views init_state schemas = Inl e"
      by simp
    with Inl show ?thesis
      by (simp add: snowflake_export_def)
  next
    case (Inr st1)
    with export_loop_same_shape [OF s0, where d = d and ua = uuid4 and iv = include_views
        and ss = schemas and ub = uuid4']
    obtain st2 where 2: "export_loop d uuid4' include_views init_state schemas = Inr st2"
      and sh: "same_shape st1 st2"
      by auto
    have "set (keys (grouped_rows st1)) \<subseteq> dom (entity_ids st1)"
      using export_loop_inv [OF init_inv Inr] by (simp add: state_inv_def)
    note b1 = build_entities_ok [OF this]
    have "set (keys (grouped_rows st2)) \<subseteq> dom (entity_ids st2)"
      using export_loop_inv [OF init_inv 2] by (simp add: state_inv_def)
    note b2 = build_entities_ok [OF this]
    from sh have g: "grouped_rows st1 = grouped_rows st2"
      and r: "map erase_rel_ids (st_relationships st1) = map erase_rel_ids (st_relationships st2)"
      by (simp_all add: same_shape_def)
    have e1: "map_sum id erase_ids (snowflake_export d uuid4 schemas include_views)
        = Inr \<lparr>model_name = None, level = ''conceptual'', folderId = None,
               entities = map (\<lambda>(n, as). \<lparr>ent_id = [], ent_name = n, ent_attributes = as\<rparr>)
                            (grouped_rows st1),
               relationships = map erase_rel_ids (st_relationships st1)\<rparr>"
      by (simp add: snowflake_export_def Inr b1 erase_ids_def erase_built_entities del: map_map)
    have e2: "map_sum id erase_ids (snowflake_export d uuid4' schemas include_views)
        = Inr \<lparr>model_name = None, level = ''conceptual'', folderId = None,
               entities = map (\<lambda>(n, as). \<lparr>ent_id = [], ent_name = n, ent_attributes = as\<rparr>)
                            (grouped_rows st2),
               relationships = map erase_rel_ids (st_relationships st2)\<rparr>"
      by (simp add: snowflake_export_def 2 b2 erase_ids_def erase_built_entities del: map_map)
    show ?thesis
      by (simp only: e1 e2 g r)
  qed
qed

section \<open>Fetching\<close>

text \<open>
  When the table/view fetch raises and when it returns the empty list: it raises exactly
  when opening the cursor raises, and then the client's exception propagates unchanged;
  whatever the queries themselves raise is caught.
\<close>

lemma get_tables_and_views_cases:
  "(get_tables_and_views d schema_name include_views = Inl e \<longleftrightarrow> cursor d = Some e)
   \<and> (cursor d = None
        \<longrightarrow> (case execute d (TablesQuery schema_name include_views) of
               Inl x \<Rightarrow> True
             | Inr tables \<Rightarrow>
                 tables = []
                 \<and> (case execute d (ShowTables schema_name) of
                      Inl x \<Rightarrow> True
                    | Inr all_tables \<Rightarrow> all_tables = []))
        \<longrightarrow> get_tables_and_views d schema_name include_views = Inr [])"
  by (auto simp: get_tables_and_views_def split: option.splits sum.splits list.splits)

text \<open>
  C3 fails where a query fails. The cursor opens, the catalog query raises a
  connectivity failure, and the fetch returns the empty list: the handler around the
  queries catches the exception, against the claim and against the function's own
  docstring (\<open>Raises: Exception: If Snowflake queries fail\<close>).
\<close>

theorem connectivity_failure_swallowed:
  "cursor down_db = None
   \<and> execute down_db (TablesQuery ''PUBLIC'' True) = Inl (ClientError Connectivity)
   \<and> get_tables_and_views down_db ''PUBLIC'' True = Inr []"
  by (simp add: down_db_def get_tables_and_views_def)

lemma emitted_I:
  assumes "fk_fields fk = Some (fs, ft, fc, ps, pt, pc)" and "ft \<in> set T" and "pt \<in> set T"
    and "ft \<in> set ks" and "pt \<in> set ks" and "ids pt = Some pid" and "ids ft = Some fid"
  shows "emitted T ks ids fk = [new_relationship pid pt pc fid ft fc]"
  using assms by (simp add: emitted_def)

lemma expected_I:
  assumes "fk \<in> set (get_foreign_keys d s)"
    and "fk_fields fk = Some (fs, ft, fc, ps, pt, pc)"
    and "ft \<in> set (in_scope d iv s)" and "pt \<in> set (in_scope d iv s)"
    and "ft \<in> set (grouped_names d iv [s])" and "pt \<in> set (grouped_names d iv [s])"
    and "ids pt = Some pid" and "ids ft = Some fid"
  shows "s \<in> set ss \<Longrightarrow>
           new_relationship pid pt pc fid ft fc \<in> set (expected_relationships d iv ids pre ss)"
proof (induction ss arbitrary: pre)
  case Nil
  then show ?case by simp
next
  case (Cons x ss)
  show ?case
  proof (cases "x = s")
    case True
    have "ft \<in> set (grouped_names d iv (pre @ [s]))" "pt \<in> set (grouped_names d iv (pre @ [s]))"
      using assms(5,6) by (simp_all add: grouped_names_append)
    from emitted_I [OF assms(2-4) this assms(7,8)] assms(1) True
    show ?thesis by force
  next
    case False
    with Cons.prems have "s \<in> set ss" by simp
    from Cons.IH [OF this] show ?thesis by simp
  qed
qed

lemma fetch_ok_cursor: "fetch_ok d iv s \<Longrightarrow> cursor d = None"
  by (auto simp: fetch_ok_def get_tables_and_views_def split: option.splits)

lemma relationship_emitted:
  assumes h: "snowflake_export d u ss iv = Inr doc" and s: "s \<in> set ss"
    and fk: "fk \<in> set (get_foreign_keys d s)" "fk_fields fk = Some (fs, ft, fc, ps, pt, pc)"
    and g: "ft \<in> set (grouped_names d iv [s])" "pt \<in> set (grouped_names d iv [s])"
  shows "\<exists>pid fid. ids_of (entities doc) pt = Some pid \<and> ids_of (entities doc) ft = Some fid
           \<and> new_relationship pid pt pc fid ft fc \<in> set (relationships doc)"
proof -
  from g have sc: "ft \<in> set (in_scope d iv s)" "pt \<in> set (in_scope d iv s)"
    by (auto simp: grouped_names_def)
  from g s have ga: "ft \<in> set (grouped_names d iv ss)" "pt \<in> set (grouped_names d iv ss)"
    by (auto simp: grouped_names_def)
  from entity_of_grouped_name [OF h ga(2)] obtain ep :: entity where
    ep: "ids_of (entities doc) pt = Some (ent_id ep)"
    by blast
  from entity_of_grouped_name [OF h ga(1)] obtain ef :: entity where
    ef: "ids_of (entities doc) ft = Some (ent_id ef)"
    by blast
  have "new_relationship (ent_id ep) pt pc (ent_id ef) ft fc
          \<in> set (expected_relationships d iv (ids_of (entities doc)) [] ss)"
    by (rule expected_I [OF fk sc g ep ef s])
  then have "new_relationship (ent_id ep) pt pc (ent_id ef) ft fc \<in> set (relationships doc)"
    by (simp only: relationships_characterised [OF h])
  with ep ef show ?thesis by blast
qed

lemma fk_attempt_Some:
  "fk_attempt d q = Some rows \<longleftrightarrow> cursor d = None \<and> execute d q = Inr rows \<and> rows \<noteq> []"
  by (auto simp: fk_attempt_def split: option.splits sum.splits list.splits)

lemma get_foreign_keys_log_eq:
  "get_foreign_keys_log d s =
     (if fk_attempt d (FkMethod1 s) \<noteq> None then [1]
      else if fk_attempt d (FkMethod2 s) \<noteq> None then [1, 2]
      else [1, 2, 3])"
  by (auto simp: get_foreign_keys_log_def methods_def split: option.splits)

lemma get_foreign_keys_eq:
  "get_foreign_keys d s =
     (case fk_attempt d (FkMethod1 s) of
        Some rows \<Rightarrow> rows
      | None \<Rightarrow>
         (case fk_attempt d (FkMethod2 s) of
            Some rows \<Rightarrow> rows
          | None \<Rightarrow>
             (case fk_attempt d (ShowImportedKeys s) of
                Some rows \<Rightarrow> map remap_imported_key rows
              | None \<Rightarrow> [])))"
  by (simp add: get_foreign_keys_def methods_def split: option.splits)

lemma fk_fields_remap:
  "fk_fields (remap_imported_key r) =
     Some (dict_get r ''FK_DATABASE_NAME'' (dict_get r ''fk_schema_name'' []),
           dict_get r ''FK_TABLE_NAME'' (dict_get r ''fk_table_name'' []),
           dict_get r ''FK_COLUMN_NAME'' (dict_get r ''fk_column_name'' []),
           dict_get r ''PK_DATABASE_NAME'' (dict_get r ''pk_schema_name'' []),
           dict_get r ''PK_TABLE_NAME'' (dict_get r ''pk_table_name'' []),
           dict_get r ''PK_COLUMN_NAME'' (dict_get r ''pk_column_name'' []))"
  by (simp add: fk_fields_def remap_imported_key_def)

lemma third_strategy_relationship:
  assumes a1: "fk_attempt d (FkMethod1 s) = None" and a2: "fk_attempt d (FkMethod2 s) = None"
    and e: "execute d (ShowImportedKeys s) = Inr rows" and r: "r \<in> set rows"
    and n: "r ''FK_TABLE_NAME'' = Some ft" "r ''FK_COLUMN_NAME'' = Some fc"
      "r ''PK_TABLE_NAME'' = Some pt" "r ''PK_COLUMN_NAME'' = Some pc"
    and s: "s \<in> set ss" and h: "snowflake_export d u ss iv = Inr doc"
    and g: "ft \<in> set (grouped_names d iv [s])" "pt \<in> set (grouped_names d iv [s])"
  shows "\<exists>pid fid. ids_of (entities doc) pt = Some pid \<and> ids_of (entities doc) ft = Some fid
           \<and> new_relationship pid pt pc fid ft fc \<in> set (relationships doc)"
proof -
  from h have "list_all (fetch_ok d iv) ss"
    using snowflake_export_ok [of d u ss iv] by auto
  with s have "cursor d = None"
    by (auto simp: list_all_iff dest: fetch_ok_cursor)
  with e r have "fk_attempt d (ShowImportedKeys s) = Some rows"
    by (auto simp: fk_attempt_Some)
  with a1 a2 have "get_foreign_keys d s = map remap_imported_key rows"
    by (simp add: get_foreign_keys_eq)
  with r have m: "remap_imported_key r \<in> set (get_foreign_keys d s)"
    by simp
  from n have f: "fk_fields (remap_imported_key r)
      = Some (dict_get r ''FK_DATABASE_NAME'' (dict_get r ''fk_schema_name'' []), ft, fc,
              dict_get r ''PK_DATABASE_NAME'' (dict_get r ''pk_schema_name'' []), pt, pc)"
    by (simp add: fk_fields_remap dict_get_def)
  from relationship_emitted [OF h s m f g] show ?thesis .
qed

text \<open>
  C6: foreign-key retrieval tries its methods in the order 1, 2, 3. What it prints shows
  which were tried: method 2 only when the attempt with method 1 gave nothing (no row, or
  an exception), method 3 only when the attempt with method 2 gave nothing either. The
  result is the rows of the first attempt that gave at least one row, those of method 3
  remapped to the lower-case keys, and the empty list when none did. When only method 3
  gives rows and a row carries the upper-case names \<open>FK_TABLE_NAME\<close>,
  \<open>FK_COLUMN_NAME\<close>, \<open>PK_TABLE_NAME\<close>, \<open>PK_COLUMN_NAME\<close>, and both tables are
  listed with column rows in the schema, the document of the export has the
  relationship from the referenced column to the referencing column, with the
  identifiers of the two entities.
\<close>

theorem foreign_key_methods_in_order:
  "get_foreign_keys_log d s
     = (if fk_attempt d (FkMethod1 s) \<noteq> None then [1]
        else if fk_attempt d (FkMethod2 s) \<noteq> None then [1, 2]
        else [1, 2, 3])
   \<and> get_foreign_keys d s
       = (case fk_attempt d (FkMethod1 s) of
            Some rows \<Rightarrow> rows
          | None \<Rightarrow>
             (case fk_attempt d (FkMethod2 s) of
                Some rows \<Rightarrow> rows
              | None \<Rightarrow>
                 (case fk_attempt d (ShowImportedKeys s) of
                    Some rows \<Rightarrow> map remap_imported_key rows
                  | None \<Rightarrow> [])))
   \<and> (fk_attempt d q = Some results
        \<longleftrightarrow> cursor d = None \<and> execute d q = Inr results \<and> results \<noteq> [])
   \<and> (fk_attempt d (FkMethod1 s) = None \<longrightarrow> fk_attempt d (FkMethod2 s) = None
        \<longrightarrow> execute d (ShowImportedKeys s) = Inr rows3 \<longrightarrow> r \<in> set rows3
        \<longrightarrow> r ''FK_TABLE_NAME'' = Some fk_table \<longrightarrow> r ''FK_COLUMN_NAME'' = Some fk_column
        \<longrightarrow> r ''PK_TABLE_NAME'' = Some pk_table \<longrightarrow> r ''PK_COLUMN_NAME'' = Some pk_column
        \<longrightarrow> s \<in> set schemas
        \<longrightarrow> snowflake_export d uuid4 schemas include_views = Inr doc
        \<longrightarrow> fk_table \<in> set (grouped_names d include_views [s])
        \<longrightarrow> pk_table \<in> set (grouped_names d include_views [s])
        \<longrightarrow> (\<exists>pk_id fk_id.
               ids_of (entities doc) pk_table = Some pk_id
               \<and> ids_of (entities doc) fk_table = Some fk_id
               \<and> new_relationship pk_id pk_table pk_column fk_id fk_table fk_column
                   \<in> set (relationships doc)))"
proof (intro conjI)
  show "get_foreign_keys_log d s
     = (if fk_attempt d (FkMethod1 s) \<noteq> None then [1]
        else if fk_attempt d (FkMethod2 s) \<noteq> None then [1, 2]
        else [1, 2, 3])"
    by (rule get_foreign_keys_log_eq)
next
  show "get_foreign_keys d s
       = (case fk_attempt d (FkMethod1 s) of
            Some rows \<Rightarrow> rows
          | None \<Rightarrow>
             (case fk_attempt d (FkMethod2 s) of
                Some rows \<Rightarrow> rows
              | None \<Rightarrow>
                 (case fk_attempt d (ShowImportedKeys s) of
                    Some rows \<Rightarrow> map remap_imported_key rows
                  | None \<Rightarrow> [])))"
    by (rule get_foreign_keys_eq)
next
  show "fk_attempt d q = Some results
        \<longleftrightarrow> cursor d = None \<and> execute d q = Inr results \<and> results \<noteq> []"
    by (rule fk_attempt_Some)
next
  show "fk_attempt d (FkMethod1 s) = None \<longrightarrow> fk_attempt d (FkMethod2 s) = None
        \<longrightarrow> execute d (ShowImportedKeys s) = Inr rows3 \<longrightarrow> r \<in> set rows3
        \<longrightarrow> r ''FK_TABLE_NAME'' = Some fk_table \<longrightarrow> r ''FK_COLUMN_NAME'' = Some fk_column
        \<longrightarrow> r ''PK_TABLE_NAME'' = Some pk_table \<longrightarrow> r ''PK_COLUMN_NAME'' = Some pk_column
        \<longrightarrow> s \<in> set schemas
        \<longrightarrow> snowflake_export d uuid4 schemas include_views = Inr doc
        \<longrightarrow> fk_table \<in> set (grouped_names d include_views [s])
        \<longrightarrow> pk_table \<in> set (grouped_names d include_views [s])
        \<longrightarrow> (\<exists>pk_id fk_id.
               ids_of (entities doc) pk_table = Some pk_id
               \<and> ids_of (entities doc) fk_table = Some fk_id
               \<and> new_relationship pk_id pk_table pk_column fk_id fk_table fk_column
                   \<in> set (relationships doc))"
    by (intro impI) (rule third_strategy_relationship)
qed

theorem foreign_key_methods_in_order_witness:
  "get_foreign_keys_log shop_db ''PUBLIC'' = [1, 2, 3]
   \<and> fk_attempt shop_db (FkMethod1 ''PUBLIC'') = None
   \<and> fk_attempt shop_db (FkMethod2 ''PUBLIC'') = None
   \<and> execute shop_db (ShowImportedKeys ''PUBLIC'') = Inr [shop_key]
   \<and> shop_key ''FK_TABLE_NAME'' = Some ''ORDERS''
   \<and> shop_key ''FK_COLUMN_NAME'' = Some ''customer_id''
   \<and> shop_key ''PK_TABLE_NAME'' = Some ''CUSTOMERS''
   \<and> shop_key ''PK_COLUMN_NAME'' = Some ''id''
   \<and> snowflake_export shop_db sample_uuid4 [''PUBLIC''] True = Inr shop_doc
   \<and> ''ORDERS'' \<in> set (grouped_names shop_db True [''PUBLIC''])
   \<and> ''CUSTOMERS'' \<in> set (grouped_names shop_db True [''PUBLIC''])
   \<and> (\<exists>pk_id fk_id.
         ids_of (entities shop_doc) ''CUSTOMERS'' = Some pk_id
         \<and> ids_of (entities shop_doc) ''ORDERS'' = Some fk_id
         \<and> new_relationship pk_id ''CUSTOMERS'' ''id'' fk_id ''ORDERS'' ''customer_id''
             \<in> set (relationships shop_doc))"
proof -
  have a: "fk_attempt shop_db (FkMethod1 ''PUBLIC'') = None"
    "fk_attempt shop_db (FkMethod2 ''PUBLIC'') = None"
    by (simp_all add: fk_attempt_def shop_db_def)
  have e: "execute shop_db (ShowImportedKeys ''PUBLIC'') = Inr [shop_key]"
    by (simp add: shop_db_def)
  have k: "shop_key ''FK_TABLE_NAME'' = Some ''ORDERS''"
    "shop_key ''FK_COLUMN_NAME'' = Some ''customer_id''"
    "shop_key ''PK_TABLE_NAME'' = Some ''CUSTOMERS''"
    "shop_key ''PK_COLUMN_NAME'' = Some ''id''"
    by (simp_all add: shop_key_def)
  have h: "snowflake_export shop_db sample_uuid4 [''PUBLIC''] True = Inr shop_doc"
    by code_simp
  have g: "''ORDERS'' \<in> set (grouped_names shop_db True [''PUBLIC''])"
    "''CUSTOMERS'' \<in> set (grouped_names shop_db True [''PUBLIC''])"
    by code_simp+
  have m: "shop_key \<in> set [shop_key]" "''PUBLIC'' \<in> set [''PUBLIC'']"
    by simp_all
  note t = foreign_key_methods_in_order [of shop_db "''PUBLIC''" _ _ "[shop_key]" shop_key
      "''ORDERS''" "''customer_id''" "''CUSTOMERS''" "''id''" "[''PUBLIC'']" sample_uuid4 True shop_doc]
  from t a have l: "get_foreign_keys_log shop_db ''PUBLIC'' = [1, 2, 3]"
    by simp
  from t a e k h g m have "\<exists>pk_id fk_id.
         ids_of (entities shop_doc) ''CUSTOMERS'' = Some pk_id
         \<and> ids_of (entities shop_doc) ''ORDERS'' = Some fk_id
         \<and> new_relationship pk_id ''CUSTOMERS'' ''id'' fk_id ''ORDERS'' ''customer_id''
             \<in> set (relationships shop_doc)"
    by blast
  with l a e k h g show ?thesis by blast
qed

section \<open>Frame of the import\<close>

text \<open>
  C10: \<open>ellie_model_import\<close> mutates the document it is given: afterwards the name and
  the level are its two arguments, whatever was there before, and the entities, the
  relationships, the folder identifier and every other key are as they were. The request
  body, when the URL can be built, is that mutated document.
\<close>

theorem ellie_model_import_frame:
  "fst (ellie_model_import s post n m l) = m\<lparr>model_name := Some n, level := l\<rparr>
   \<and> model_name (fst (ellie_model_import s post n m l)) = Some n
   \<and> level (fst (ellie_model_import s post n m l)) = l
   \<and> entities (fst (ellie_model_import s post n m l)) = entities m
   \<and> relationships (fst (ellie_model_import s post n m l)) = relationships m
   \<and> folderId (fst (ellie_model_import s post n m l)) = folderId m
   \<and> model.more (fst (ellie_model_import s post n m l)) = model.more m
   \<and> snd (ellie_model_import s post n m l)
       = (case ellie_url s of Inl e \<Rightarrow> Inl e
          | Inr url \<Rightarrow> post url (m\<lparr>model_name := Some n, level := l\<rparr>))"
  by (simp add: ellie_model_import_def Let_def)

end
